theory Spec2Isabelle
  imports Main "HOL-Library.Multiset"
begin

section \<open>JavaScript values\<close>

text \<open>
  The engine of \<^verbatim>\<open>index.js\<close> handles the caller's values without looking inside them,
  apart from a few reads. A value is a primitive or a reference. Numbers are restricted to
  the integers and \<^verbatim>\<open>NaN\<close>. A reference is the address of an object of the caller
  (\<open>Obj\<close> when \<^verbatim>\<open>typeof\<close> gives \<^verbatim>\<open>'object'\<close>, \<open>Fn\<close> when it gives
  \<^verbatim>\<open>'function'\<close>, which covers classes), or \<open>New k\<close>: the object made by the
  \<open>k\<close>-th evaluation of the literal \<^verbatim>\<open>{}\<close> inside the engine.
\<close>

type_synonym addr = nat

datatype val =
    Undefined
  | Null
  | Bool bool
  | Number int
  | NaN
  | Str string
  | Sym nat
  | Obj addr
  | Fn addr
  | New nat

fun typeof :: "val \<Rightarrow> string" where
  "typeof Undefined = ''undefined''"
| "typeof Null = ''object''"
| "typeof (Bool b) = ''boolean''"
| "typeof (Number n) = ''number''"
| "typeof NaN = ''number''"
| "typeof (Str s) = ''string''"
| "typeof (Sym n) = ''symbol''"
| "typeof (Obj a) = ''object''"
| "typeof (Fn a) = ''function''"
| "typeof (New k) = ''object''"

text \<open>\<^verbatim>\<open>!!v\<close>: the values that count as false are \<^verbatim>\<open>undefined\<close>, \<^verbatim>\<open>null\<close>,
  \<^verbatim>\<open>false\<close>, \<^verbatim>\<open>0\<close>, \<^verbatim>\<open>NaN\<close> and the empty string.\<close>

fun truthy :: "val \<Rightarrow> bool" where
  "truthy Undefined = False"
| "truthy Null = False"
| "truthy (Bool b) = b"
| "truthy (Number n) = (n \<noteq> 0)"
| "truthy NaN = False"
| "truthy (Str s) = (s \<noteq> [])"
| "truthy (Sym n) = True"
| "truthy (Obj a) = True"
| "truthy (Fn a) = True"
| "truthy (New k) = True"

text \<open>\<^verbatim>\<open>a === b\<close>: equality of primitives, identity of references; \<^verbatim>\<open>NaN\<close> equals
  nothing.\<close>

fun strict_eq :: "val \<Rightarrow> val \<Rightarrow> bool" where
  "strict_eq NaN b = False"
| "strict_eq a NaN = False"
| "strict_eq a b = (a = b)"

text \<open>
  What a \<^verbatim>\<open>throw\<close> carries: a value of the caller's code, an error object built by the
  engine (\<^verbatim>\<open>new TypeError(message)\<close> in \<^verbatim>\<open>allow\<close>, \<^verbatim>\<open>new Error(message)\<close> in
  \<^verbatim>\<open>defaultCreateError\<close>), or a \<^verbatim>\<open>TypeError\<close> raised by the language itself (reading
  a property of \<^verbatim>\<open>undefined\<close>, calling what is not a function, \<^verbatim>\<open>instanceof\<close> with a
  right-hand side that is not callable), whose message depends on the JavaScript engine.
\<close>

datatype thrown =
    Value val
  | TypeError string
  | Error string
  | RuntimeTypeError

text \<open>
  What calling a condition gives, up to the \<^verbatim>\<open>await\<close> around the call: a value that is
  not a promise, an exception, or a promise that is fulfilled, rejected or never settled.
  The number of \<open>Rejects\<close> orders the rejections of one query in time (smaller is earlier).
\<close>

datatype completion =
    Returns val
  | Throws thrown
  | Fulfils val
  | Rejects nat thrown
  | Hangs

text \<open>
  The state of the promise of one \<^verbatim>\<open>async\<close> callback once the event loop has run. A
  rejection carries its rank in time; rank \<open>0\<close> is a promise already rejected when the
  callback returns (a synchronous \<^verbatim>\<open>throw\<close> in its body).
\<close>

datatype promise =
    Fulfilled val
  | RejectedAt nat thrown
  | Unsettled

text \<open>What the caller of an \<^verbatim>\<open>async\<close> method observes.\<close>

datatype 'a outcome =
    Resolved 'a
  | Rejected thrown
  | Pending

section \<open>The caller's objects and functions\<close>

text \<open>
  The answers of the JavaScript runtime on the caller's objects and functions, which the
  engine only reaches through these operations. The callers' functions are taken to be free
  of side effects on the engine and on the objects read here, as section 4.2 of the
  specification assumes.
  \<^item> \<open>plain a\<close>: \<^verbatim>\<open>is-plain-obj\<close> on the object at \<open>a\<close> (its prototype is
    \<^verbatim>\<open>Object.prototype\<close> or \<^verbatim>\<open>null\<close>);
  \<^item> \<open>elements a\<close>: the elements when the object at \<open>a\<close> is an array (or another
    iterable object, which version 2 of \<^verbatim>\<open>arrify\<close> spreads like an array);
  \<^item> \<open>keys a\<close>: \<^verbatim>\<open>Object.keys\<close> of the object at \<open>a\<close>, in its order;
  \<^item> \<open>property v k\<close>: the property read \<^verbatim>\<open>v[k]\<close> on a value other than \<^verbatim>\<open>undefined\<close>
    and \<^verbatim>\<open>null\<close> (an accessor may throw);
  \<^item> \<open>call_method f this args\<close>: calling the function at \<open>f\<close> as a method;
  \<^item> \<open>call_condition f args\<close>: calling the function at \<open>f\<close> as a rule's condition and
    awaiting what it returns (the receiver of that call, the rule object, is not modelled);
  \<^item> \<open>instance_of v f\<close>: \<^verbatim>\<open>v instanceof F\<close> for the function \<open>F\<close> at \<open>f\<close> (it throws
    when \<^verbatim>\<open>F.prototype\<close> is not an object).
\<close>

record runtime =
  plain :: "addr \<Rightarrow> bool"
  elements :: "addr \<Rightarrow> val list option"
  keys :: "addr \<Rightarrow> string list"
  property :: "val \<Rightarrow> string \<Rightarrow> thrown + val"
  call_method :: "addr \<Rightarrow> val \<Rightarrow> val list \<Rightarrow> thrown + val"
  call_condition :: "addr \<Rightarrow> val list \<Rightarrow> completion"
  instance_of :: "val \<Rightarrow> addr \<Rightarrow> thrown + bool"

text \<open>\<^verbatim>\<open>v[k]\<close>, which throws on \<^verbatim>\<open>undefined\<close> and \<^verbatim>\<open>null\<close>.\<close>

definition read :: "runtime \<Rightarrow> val \<Rightarrow> string \<Rightarrow> thrown + val" where
  "read rt v k =
     (case v of
        Undefined \<Rightarrow> Inl RuntimeTypeError
      | Null \<Rightarrow> Inl RuntimeTypeError
      | _ \<Rightarrow> property rt v k)"

text \<open>\<^verbatim>\<open>Object.keys(obj)\<close> on an attribute map; an object made by \<^verbatim>\<open>{}\<close> has none.\<close>

definition object_keys :: "runtime \<Rightarrow> val \<Rightarrow> string list" where
  "object_keys rt v = (case v of Obj a \<Rightarrow> keys rt a | _ \<Rightarrow> [])"

subsection \<open>The packages \<^verbatim>\<open>is-plain-obj\<close> and \<^verbatim>\<open>arrify\<close>\<close>

text \<open>
  Both are packages of the npm registry, modelled after their documented behaviour.
  \<^verbatim>\<open>isObject(x)\<close> holds of plain objects only. \<^verbatim>\<open>arrify(x)\<close> is the empty array for
  \<^verbatim>\<open>undefined\<close> and \<^verbatim>\<open>null\<close>, the elements of \<open>x\<close> for an array, and \<^verbatim>\<open>[x]\<close>
  otherwise.
\<close>

definition isObject :: "runtime \<Rightarrow> val \<Rightarrow> bool" where
  "isObject rt v = (case v of Obj a \<Rightarrow> plain rt a | New k \<Rightarrow> True | _ \<Rightarrow> False)"

definition arrify :: "runtime \<Rightarrow> val \<Rightarrow> val list" where
  "arrify rt v =
     (case v of
        Undefined \<Rightarrow> []
      | Null \<Rightarrow> []
      | Obj a \<Rightarrow> (case elements rt a of Some xs \<Rightarrow> xs | None \<Rightarrow> [v])
      | _ \<Rightarrow> [v])"

section \<open>Attribute maps as conditions\<close>

text \<open>
  \<^verbatim>\<open>function get(obj, key) {
    return (typeof obj.get === 'function') ? obj.get(key) : obj[key];
}\<close>
\<close>

definition get :: "runtime \<Rightarrow> val \<Rightarrow> string \<Rightarrow> thrown + val" where
  "get rt obj key =
     (case read rt obj ''get'' of
        Inl e \<Rightarrow> Inl e
      | Inr g \<Rightarrow>
          (case g of
             Fn f \<Rightarrow> call_method rt f obj [Str key]
           | _ \<Rightarrow> read rt obj key))"

text \<open>\<^verbatim>\<open>Array.prototype.every\<close> with a callback that may throw: it stops at the first
  element that fails the test, and at the first exception.\<close>

fun every :: "('a \<Rightarrow> thrown + bool) \<Rightarrow> 'a list \<Rightarrow> thrown + bool" where
  "every f [] = Inr True"
| "every f (x # xs) =
     (case f x of
        Inl e \<Rightarrow> Inl e
      | Inr b \<Rightarrow> if b then every f xs else Inr False)"

text \<open>The test \<^verbatim>\<open>get(target, key) === obj[key]\<close>, left operand first.\<close>

definition key_equal :: "runtime \<Rightarrow> val \<Rightarrow> val \<Rightarrow> string \<Rightarrow> thrown + bool" where
  "key_equal rt target obj key =
     (case get rt target key of
        Inl e \<Rightarrow> Inl e
      | Inr x \<Rightarrow>
          (case read rt obj key of
             Inl e \<Rightarrow> Inl e
           | Inr y \<Rightarrow> Inr (strict_eq x y)))"

text \<open>
  \<^verbatim>\<open>function isPartiallyEqual(target, obj) {
    return Object.keys(obj).every(key => get(target, key) === obj[key]);
};\<close>
\<close>

definition isPartiallyEqual :: "runtime \<Rightarrow> val \<Rightarrow> val \<Rightarrow> thrown + bool" where
  "isPartiallyEqual rt target obj = every (key_equal rt target obj) (object_keys rt obj)"

text \<open>
  The \<^verbatim>\<open>condition\<close> field of a rule holds either the value the caller gave to
  \<^verbatim>\<open>allow\<close>, or the function built by \<^verbatim>\<open>getConditionFn\<close>, which closes over the
  attribute map:
  \<^verbatim>\<open>function getConditionFn(condition) {
    return (performer, target) => isPartiallyEqual(target, condition);
};\<close>
\<close>

datatype cond =
    Given val
  | Closure val

definition getConditionFn :: "val \<Rightarrow> cond" where
  "getConditionFn condition = Closure condition"

text \<open>The \<open>i\<close>-th argument of a call, \<^verbatim>\<open>undefined\<close> when the caller passed fewer.\<close>

definition arg :: "val list \<Rightarrow> nat \<Rightarrow> val" where
  "arg args i = (if i < length args then args ! i else Undefined)"

text \<open>Calling the value in a rule's \<^verbatim>\<open>condition\<close> field, and what the \<^verbatim>\<open>await\<close> around
  the call will see. A value that is not a function cannot be called.\<close>

definition call :: "runtime \<Rightarrow> cond \<Rightarrow> val list \<Rightarrow> completion" where
  "call rt c args =
     (case c of
        Closure obj \<Rightarrow>
          (case isPartiallyEqual rt (arg args 1) obj of
             Inl e \<Rightarrow> Throws e
           | Inr b \<Rightarrow> Returns (Bool b))
      | Given v \<Rightarrow>
          (case v of
             Fn f \<Rightarrow> call_condition rt f args
           | _ \<Rightarrow> Throws RuntimeTypeError))"

section \<open>The engine\<close>

record ability =
  model :: val
  action :: val
  target :: val
  condition :: cond

record cancan =
  abilities :: "ability list"
  instanceOf :: "val \<Rightarrow> val \<Rightarrow> thrown + val"
  createError :: "val list \<Rightarrow> thrown + thrown"

text \<open>
  \<^verbatim>\<open>const defaultInstanceOf = (instance, model) => instance instanceof model;
const defaultCreateError = () => new Error('Authorization error');\<close>
  The operator throws when its right-hand side is not callable (objects that define
  \<^verbatim>\<open>Symbol.hasInstance\<close> are left out).
\<close>

definition defaultInstanceOf :: "runtime \<Rightarrow> val \<Rightarrow> val \<Rightarrow> thrown + val" where
  "defaultInstanceOf rt inst m =
     (case m of
        Fn f \<Rightarrow> (case instance_of rt inst f of Inl e \<Rightarrow> Inl e | Inr b \<Rightarrow> Inr (Bool b))
      | _ \<Rightarrow> Inl RuntimeTypeError)"

definition defaultCreateError :: "val list \<Rightarrow> thrown + thrown" where
  "defaultCreateError args = Inr (Error ''Authorization error'')"

text \<open>
  The constructor. The options of the caller are two optional functions; the error factory
  of a caller returns a value, which \<^verbatim>\<open>authorize\<close> throws.
\<close>

record options =
  opt_instanceOf :: "(val \<Rightarrow> val \<Rightarrow> thrown + val) option"
  opt_createError :: "(val list \<Rightarrow> thrown + val) option"

definition CanCan :: "runtime \<Rightarrow> options option \<Rightarrow> cancan" where
  "CanCan rt opts =
     (let options = (case opts of Some os \<Rightarrow> os
                     | None \<Rightarrow> \<lparr>opt_instanceOf = None, opt_createError = None\<rparr>)
      in \<lparr>abilities = [],
          instanceOf = (case opt_instanceOf options of Some f \<Rightarrow> f
                        | None \<Rightarrow> defaultInstanceOf rt),
          createError = (case opt_createError options of
                           Some f \<Rightarrow> (\<lambda>args. case f args of Inl e \<Rightarrow> Inl e
                                               | Inr v \<Rightarrow> Inr (Value v))
                         | None \<Rightarrow> defaultCreateError)\<rparr>)"

subsection \<open>\<^verbatim>\<open>allow\<close>\<close>

text \<open>
  \<^verbatim>\<open>allow(model, actions, targets, condition) {
    if (typeof condition !== 'undefined' && typeof condition !== 'function' && !isObject(condition)) {
        throw new TypeError(`Expected condition to be object or function, got ${typeof condition}`);
    }
    if (isObject(condition)) {
        condition = getConditionFn(condition);
    }
    arrify(actions).forEach(action => {
        arrify(targets).forEach(target => {
            this.abilities.push({model, action, target, condition});
        });
    });
}\<close>
  The method returns the exception or nothing, and the engine as it leaves it.
\<close>

definition push :: "ability \<Rightarrow> cancan \<Rightarrow> cancan" where
  "push a eng = eng\<lparr>abilities := abilities eng @ [a]\<rparr>"

definition forEach :: "'a list \<Rightarrow> ('a \<Rightarrow> 's \<Rightarrow> 's) \<Rightarrow> 's \<Rightarrow> 's" where
  "forEach xs f s = fold f xs s"

definition allow :: "runtime \<Rightarrow> val \<Rightarrow> val \<Rightarrow> val \<Rightarrow> val \<Rightarrow> cancan \<Rightarrow> (thrown + unit) \<times> cancan" where
  "allow rt m actions targets cnd eng =
     (if typeof cnd \<noteq> ''undefined'' \<and> typeof cnd \<noteq> ''function'' \<and> \<not> isObject rt cnd
      then (Inl (TypeError (''Expected condition to be object or function, got ''
                            @ typeof cnd)), eng)
      else
        let c = (if isObject rt cnd then getConditionFn cnd else Given cnd)
        in (Inr (),
            forEach (arrify rt actions) (\<lambda>a.
              forEach (arrify rt targets) (\<lambda>t.
                push \<lparr>model = m, action = a, target = t, condition = c\<rparr>)) eng))"

subsection \<open>\<^verbatim>\<open>can\<close>\<close>

text \<open>
  What a query changes outside the engine: the objects the engine creates with \<^verbatim>\<open>{}\<close>
  are counted, and every call of a rule's condition is recorded with its arguments, oldest
  first. The record of calls is there to state what the conditions receive; nothing reads it.
\<close>

record store =
  created :: nat
  calls :: "(cond \<times> val list) list"

definition empty_object :: "store \<Rightarrow> val \<times> store" where
  "empty_object s = (New (created s), s\<lparr>created := Suc (created s)\<rparr>)"

text \<open>\<^verbatim>\<open>options || {}\<close>\<close>

definition options_or_empty :: "val \<Rightarrow> store \<Rightarrow> val \<times> store" where
  "options_or_empty opts s = (if truthy opts then (opts, s) else empty_object s)"

text \<open>The test \<^verbatim>\<open>if (ability.condition)\<close>; the function made by \<^verbatim>\<open>getConditionFn\<close>
  is an object, which counts as true.\<close>

definition present :: "cond \<Rightarrow> bool" where
  "present c = (case c of Given v \<Rightarrow> truthy v | Closure obj \<Rightarrow> True)"

text \<open>The promise of an \<^verbatim>\<open>async\<close> function whose body is \<^verbatim>\<open>return await c\<close>.\<close>

fun await :: "completion \<Rightarrow> promise" where
  "await (Returns v) = Fulfilled v"
| "await (Throws e) = RejectedAt 0 e"
| "await (Fulfils v) = Fulfilled v"
| "await (Rejects t e) = RejectedAt (Suc t) e"
| "await Hangs = Unsettled"

text \<open>
  The callback of \<^verbatim>\<open>filterAsync\<close> in \<^verbatim>\<open>can\<close>:
  \<^verbatim>\<open>async (ability) => {
    if (ability.condition) {
        return await ability.condition(performer, target, options || {});
    }
    return true;
}\<close>
\<close>

definition check :: "runtime \<Rightarrow> val \<Rightarrow> val \<Rightarrow> val \<Rightarrow> ability \<Rightarrow> store \<Rightarrow> promise \<times> store" where
  "check rt performer tgt opts ab s =
     (if present (condition ab) then
        (case options_or_empty opts s of
           (ob, s1) \<Rightarrow>
             (await (call rt (condition ab) [performer, tgt, ob]),
              s1\<lparr>calls := calls s1 @ [(condition ab, [performer, tgt, ob])]\<rparr>))
      else (Fulfilled (Bool True), s))"

text \<open>\<^verbatim>\<open>array.map(fn)\<close> for a callback that changes the store: the calls are made in the
  order of the array, each to its end or to its first \<^verbatim>\<open>await\<close>.\<close>

fun array_map :: "('a \<Rightarrow> store \<Rightarrow> promise \<times> store) \<Rightarrow> 'a list \<Rightarrow> store \<Rightarrow> promise list \<times> store" where
  "array_map fn [] s = ([], s)"
| "array_map fn (x # xs) s =
     (case fn x s of
        (p, s1) \<Rightarrow> (case array_map fn xs s1 of (ps, s2) \<Rightarrow> (p # ps, s2)))"

text \<open>
  \<^verbatim>\<open>Promise.all\<close> rejects with the reason of the promise that is rejected first, whatever
  the others do; of two rejections of the same rank the one earlier in the array counts.
  It is fulfilled with all the values once every promise is fulfilled.
\<close>

fun first_rejection :: "promise list \<Rightarrow> (nat \<times> thrown) option" where
  "first_rejection [] = None"
| "first_rejection (p # ps) =
     (case p of
        RejectedAt t e \<Rightarrow>
          (case first_rejection ps of
             Some (t', e') \<Rightarrow> if t' < t then Some (t', e') else Some (t, e)
           | None \<Rightarrow> Some (t, e))
      | _ \<Rightarrow> first_rejection ps)"

fun fulfilment :: "promise \<Rightarrow> val option" where
  "fulfilment (Fulfilled v) = Some v"
| "fulfilment (RejectedAt t e) = None"
| "fulfilment Unsettled = None"

definition promise_all :: "promise list \<Rightarrow> val list outcome" where
  "promise_all ps =
     (case first_rejection ps of
        Some (t, e) \<Rightarrow> Rejected e
      | None \<Rightarrow> (case those (map fulfilment ps) of Some vs \<Rightarrow> Resolved vs | None \<Rightarrow> Pending))"

text \<open>\<^verbatim>\<open>promise.then(f)\<close> and \<^verbatim>\<open>f(await promise)\<close> for a function \<open>f\<close> that does not
  throw.\<close>

fun and_then :: "'a outcome \<Rightarrow> ('a \<Rightarrow> 'b) \<Rightarrow> 'b outcome" where
  "and_then (Resolved x) f = Resolved (f x)"
| "and_then (Rejected e) f = Rejected e"
| "and_then Pending f = Pending"

text \<open>
  \<^verbatim>\<open>function mapAsync(array, fn) {
    return Promise.all(array.map(fn));
}
function filterAsync(array, fn) {
    return mapAsync(array, fn)
        .then((mappedArray) => mappedArray.filter((v, i) => !!mappedArray[i]));
}\<close>
  \<^verbatim>\<open>filterAsync\<close> keeps the values of the callback that count as true, not the elements
  of \<open>array\<close>.
\<close>

definition mapAsync :: "'a list \<Rightarrow> ('a \<Rightarrow> store \<Rightarrow> promise \<times> store) \<Rightarrow> store \<Rightarrow> val list outcome \<times> store" where
  "mapAsync array fn s = (case array_map fn array s of (ps, s1) \<Rightarrow> (promise_all ps, s1))"

definition filterAsync :: "'a list \<Rightarrow> ('a \<Rightarrow> store \<Rightarrow> promise \<times> store) \<Rightarrow> store \<Rightarrow> val list outcome \<times> store" where
  "filterAsync array fn s =
     (case mapAsync array fn s of
        (out, s1) \<Rightarrow> (and_then out (\<lambda>mappedArray. filter truthy mappedArray), s1))"

text \<open>\<^verbatim>\<open>array.filter(f)\<close> for a callback that may throw: the first exception ends it.\<close>

fun array_filter :: "('a \<Rightarrow> thrown + bool) \<Rightarrow> 'a list \<Rightarrow> thrown + 'a list" where
  "array_filter f [] = Inr []"
| "array_filter f (x # xs) =
     (case f x of
        Inl e \<Rightarrow> Inl e
      | Inr b \<Rightarrow>
          (case array_filter f xs of
             Inl e \<Rightarrow> Inl e
           | Inr ys \<Rightarrow> Inr (if b then x # ys else ys)))"

text \<open>The value a filter callback returns is read as a boolean.\<close>

definition to_boolean :: "thrown + val \<Rightarrow> thrown + bool" where
  "to_boolean r = (case r of Inl e \<Rightarrow> Inl e | Inr v \<Rightarrow> Inr (truthy v))"

text \<open>
  The three filters of \<^verbatim>\<open>can\<close>, one pass of the array after the other:
  \<^verbatim>\<open>.filter((ability) => this.instanceOf(performer, ability.model))
.filter((ability) => {
    return ability.target === 'all' ||
        target === ability.target ||
        this.instanceOf(target, ability.target);
})
.filter((ability) => {
    return ability.action === 'manage' ||
        action === ability.action;
})\<close>
\<close>

definition model_filter :: "cancan \<Rightarrow> val \<Rightarrow> ability \<Rightarrow> thrown + bool" where
  "model_filter eng performer ab = to_boolean (instanceOf eng performer (model ab))"

definition target_filter :: "cancan \<Rightarrow> val \<Rightarrow> ability \<Rightarrow> thrown + bool" where
  "target_filter eng tgt ab =
     (if strict_eq (target ab) (Str ''all'') then Inr True
      else if strict_eq tgt (target ab) then Inr True
      else to_boolean (instanceOf eng tgt (target ab)))"

definition action_filter :: "val \<Rightarrow> ability \<Rightarrow> bool" where
  "action_filter act ab = (strict_eq (action ab) (Str ''manage'') \<or> strict_eq act (action ab))"

definition filteredAbilities :: "cancan \<Rightarrow> val \<Rightarrow> val \<Rightarrow> val \<Rightarrow> thrown + ability list" where
  "filteredAbilities eng performer act tgt =
     (case array_filter (model_filter eng performer) (abilities eng) of
        Inl e \<Rightarrow> Inl e
      | Inr xs \<Rightarrow>
          (case array_filter (target_filter eng tgt) xs of
             Inl e \<Rightarrow> Inl e
           | Inr ys \<Rightarrow> Inr (filter (action_filter act) ys)))"

text \<open>
  \<^verbatim>\<open>async can(performer, action, target, options) {
    let filteredAbilities = this.abilities.filter(...).filter(...).filter(...)
    filteredAbilities = await filterAsync(filteredAbilities, async (ability) => { ... })
    return (filteredAbilities.length > 0);
}\<close>
  An exception of a filter rejects the promise of \<^verbatim>\<open>can\<close> before any condition is called.
\<close>

definition can :: "runtime \<Rightarrow> cancan \<Rightarrow> val \<Rightarrow> val \<Rightarrow> val \<Rightarrow> val \<Rightarrow> store \<Rightarrow> bool outcome \<times> store" where
  "can rt eng performer act tgt opts s =
     (case filteredAbilities eng performer act tgt of
        Inl e \<Rightarrow> (Rejected e, s)
      | Inr fa \<Rightarrow>
          (case filterAsync fa (check rt performer tgt opts) s of
             (out, s1) \<Rightarrow> (and_then out (\<lambda>passed. length passed > 0), s1)))"

subsection \<open>\<^verbatim>\<open>cannot\<close> and \<^verbatim>\<open>authorize\<close>\<close>

text \<open>
  Both methods take no named parameter and hand their \<^verbatim>\<open>arguments\<close> on:
  \<^verbatim>\<open>async cannot() {
    return !(await this.can.apply(this, arguments));
}
async authorize() {
    if (await this.cannot.apply(this, arguments)) {
        const err = this.createError.apply(null, arguments);
        throw err;
    }
}\<close>
\<close>

definition can_apply :: "runtime \<Rightarrow> cancan \<Rightarrow> val list \<Rightarrow> store \<Rightarrow> bool outcome \<times> store" where
  "can_apply rt eng args s = can rt eng (arg args 0) (arg args 1) (arg args 2) (arg args 3) s"

definition cannot :: "runtime \<Rightarrow> cancan \<Rightarrow> val list \<Rightarrow> store \<Rightarrow> bool outcome \<times> store" where
  "cannot rt eng args s =
     (case can_apply rt eng args s of (out, s1) \<Rightarrow> (and_then out (\<lambda>b. \<not> b), s1))"

definition authorize :: "runtime \<Rightarrow> cancan \<Rightarrow> val list \<Rightarrow> store \<Rightarrow> unit outcome \<times> store" where
  "authorize rt eng args s =
     (case cannot rt eng args s of
        (out, s1) \<Rightarrow>
          (case out of
             Resolved denied \<Rightarrow>
               if denied then
                 (case createError eng args of
                    Inl e \<Rightarrow> (Rejected e, s1)
                  | Inr err \<Rightarrow> (Rejected err, s1))
               else (Resolved (), s1)
           | Rejected e \<Rightarrow> (Rejected e, s1)
           | Pending \<Rightarrow> (Pending, s1)))"

section \<open>Notions for the properties\<close>

text \<open>A call of the type-membership predicate holds when it returns a value that counts
  as true.\<close>

definition holds :: "thrown + val \<Rightarrow> bool" where
  "holds r = (case r of Inl e \<Rightarrow> False | Inr v \<Rightarrow> truthy v)"

text \<open>A rule applies to a query when it meets the tests of the three filters.\<close>

definition rule_applies :: "cancan \<Rightarrow> val \<Rightarrow> val \<Rightarrow> val \<Rightarrow> ability \<Rightarrow> bool" where
  "rule_applies eng performer act tgt ab =
     (holds (instanceOf eng performer (model ab))
      \<and> (target ab = Str ''all'' \<or> strict_eq tgt (target ab)
         \<or> holds (instanceOf eng tgt (target ab)))
      \<and> (action ab = Str ''manage'' \<or> strict_eq act (action ab)))"

text \<open>The promise of the callback for a rule whose condition, if it has one, is called
  with \<open>ob\<close> as its third argument; the rule passes when that promise is fulfilled with a
  value that counts as true.\<close>

definition settle :: "runtime \<Rightarrow> val \<Rightarrow> val \<Rightarrow> val \<Rightarrow> ability \<Rightarrow> promise" where
  "settle rt performer tgt ob ab =
     (if present (condition ab) then await (call rt (condition ab) [performer, tgt, ob])
      else Fulfilled (Bool True))"

definition passes :: "runtime \<Rightarrow> val \<Rightarrow> val \<Rightarrow> val \<Rightarrow> ability \<Rightarrow> bool" where
  "passes rt performer tgt ob ab =
     (case settle rt performer tgt ob ab of Fulfilled v \<Rightarrow> truthy v | _ \<Rightarrow> False)"

text \<open>The functions of the caller cannot tell one empty object made by the engine from
  another: all of them are empty, and a function free of side effects has seen none of
  them before.\<close>

definition blind :: "runtime \<Rightarrow> bool" where
  "blind rt = (\<forall>f performer tgt j k.
      call_condition rt f [performer, tgt, New j] = call_condition rt f [performer, tgt, New k])"

text \<open>The promises of the callbacks of one query, one for each rule the filters keep.\<close>

definition promises :: "runtime \<Rightarrow> val \<Rightarrow> val \<Rightarrow> val \<Rightarrow> ability list \<Rightarrow> store \<Rightarrow> promise list" where
  "promises rt performer tgt opts fa s = fst (array_map (check rt performer tgt opts) fa s)"

text \<open>Two rules that differ in their conditions only, which are both present or both
  absent and give the same when called.\<close>

definition alike :: "runtime \<Rightarrow> ability \<Rightarrow> ability \<Rightarrow> bool" where
  "alike rt x y =
     (model x = model y \<and> action x = action y \<and> target x = target y
      \<and> present (condition x) = present (condition y)
      \<and> (\<forall>performer tgt ob. call rt (condition x) [performer, tgt, ob]
                               = call rt (condition y) [performer, tgt, ob]))"

text \<open>Two rules that differ in their conditions only, whose callbacks give the same
  promise for the same third argument.\<close>

definition same_promise :: "runtime \<Rightarrow> ability \<Rightarrow> ability \<Rightarrow> bool" where
  "same_promise rt x y =
     (model x = model y \<and> action x = action y \<and> target x = target y
      \<and> (\<forall>performer tgt ob. settle rt performer tgt ob x = settle rt performer tgt ob y))"

text \<open>
  The calls of conditions one query adds to the record, for the rules \<open>fa\<close> the filters
  keep and \<open>n\<close> objects created so far: the conditions that are present, in the order of
  the rules, each with the performer, the target and a third argument; the third arguments
  are all \<open>opts\<close> when it counts as true, and otherwise the objects \<open>New n\<close>,
  \<open>New (n + 1)\<close>, \<open>\<dots>\<close>, which did not exist before the query and differ from each other.
\<close>

definition invocations :: "val \<Rightarrow> val \<Rightarrow> val \<Rightarrow> nat \<Rightarrow> ability list \<Rightarrow> (cond \<times> val list) list" where
  "invocations performer tgt opts n fa =
     (let cs = map condition (filter (\<lambda>ab. present (condition ab)) fa)
      in zip cs (map (\<lambda>ob. [performer, tgt, ob])
                     (if truthy opts then replicate (length cs) opts
                      else map New [n ..< n + length cs])))"

text \<open>
  The third argument of the call of the condition of the \<open>i\<close>-th rule the filters keep,
  in a query that starts in the store \<open>s\<close>: the options when they count as true, and
  otherwise the object made by the \<^verbatim>\<open>{}\<close> of that call, which is numbered after the
  objects created before the query and those made for the conditions of the earlier rules.
\<close>

definition handed :: "val \<Rightarrow> store \<Rightarrow> ability list \<Rightarrow> nat \<Rightarrow> val" where
  "handed opts s fa i =
     (if truthy opts then opts
      else New (created s + length (filter (\<lambda>ab. present (condition ab)) (take i fa))))"


section \<open>A concrete world\<close>

text \<open>
  The world of the repository's tests: the classes \<^verbatim>\<open>User\<close> (\<open>Fn 1\<close>) and
  \<^verbatim>\<open>Product\<close> (\<open>Fn 2\<close>), a user (\<open>Obj 10\<close>), an unpublished product (\<open>Obj 20\<close>) and a
  published one (\<open>Obj 21\<close>), whose attributes are read through the method \<^verbatim>\<open>get\<close> of
  \<^verbatim>\<open>Model\<close> (\<open>Fn 100\<close>); the attribute map \<^verbatim>\<open>{published: true}\<close> (\<open>Obj 30\<close>), the
  empty map (\<open>Obj 31\<close>) and the array \<^verbatim>\<open>['read', 'create', 'destroy']\<close> (\<open>Obj 40\<close>).
  The conditions: \<open>Fn 200\<close> throws the string \<^verbatim>\<open>'boom'\<close>, \<open>Fn 201\<close> is
  \<^verbatim>\<open>(user, product) => product.get('published') === true\<close>, \<open>Fn 202\<close> is
  \<^verbatim>\<open>(p, t) => isPartiallyEqual(t, {published: true})\<close>, \<open>Fn 204\<close> returns a promise
  that is rejected with \<^verbatim>\<open>'late'\<close>, \<open>Fn 205\<close> is
  \<^verbatim>\<open>(p, t, options) => options === undefined\<close>, and every other function returns
  \<^verbatim>\<open>false\<close>.
  The record \<open>objects\<close> holds the objects, \<open>world\<close> adds the conditions.
\<close>

definition objects :: runtime where
  "objects =
     \<lparr>plain = (\<lambda>a. a = 30 \<or> a = 31),
      elements = (\<lambda>a. if a = 40 then Some [Str ''read'', Str ''create'', Str ''destroy'']
                       else None),
      keys = (\<lambda>a. if a = 30 then [''published''] else []),
      property = (\<lambda>v k. if v = Obj 30 \<and> k = ''published'' then Inr (Bool True)
                         else if k = ''get'' \<and> (v = Obj 10 \<or> v = Obj 20 \<or> v = Obj 21)
                         then Inr (Fn 100)
                         else Inr Undefined),
      call_method = (\<lambda>f this args.
                       if f = 100 \<and> this = Obj 21 \<and> args = [Str ''published'']
                       then Inr (Bool True) else Inr Undefined),
      call_condition = (\<lambda>f args. Returns (Bool False)),
      instance_of = (\<lambda>v f. Inr ((v = Obj 10 \<and> f = 1)
                                \<or> ((v = Obj 20 \<or> v = Obj 21) \<and> f = 2)))\<rparr>"

definition world :: runtime where
  "world =
     objects\<lparr>call_condition := (\<lambda>f args.
        if f = 200 then Throws (Value (Str ''boom''))
        else if f = 201 then Returns (Bool (arg args 1 = Obj 21))
        else if f = 202 then
          (case isPartiallyEqual objects (arg args 1) (Obj 30) of
             Inl e \<Rightarrow> Throws e
           | Inr b \<Rightarrow> Returns (Bool b))
        else if f = 204 then Rejects 0 (Value (Str ''late''))
        else if f = 205 then Returns (Bool (arg args 2 = Undefined))
        else Returns (Bool False))\<rparr>"

definition fresh_store :: store where
  "fresh_store = \<lparr>created = 0, calls = []\<rparr>"

text \<open>\<^verbatim>\<open>new CanCan()\<close>\<close>

definition engine :: cancan where
  "engine = CanCan world None"

text \<open>
  Three registries: \<open>catalogue\<close> after \<^verbatim>\<open>allow(User, 'read', Product, {published: true})\<close>;
  \<open>fragile\<close> after \<^verbatim>\<open>allow(User, 'read', Product)\<close> and
  \<^verbatim>\<open>allow(User, 'read', Product, f)\<close> for the function \<open>f\<close> that throws; \<open>generous\<close>,
  which is \<open>catalogue\<close> after \<^verbatim>\<open>allow(User, 'manage', 'all')\<close>.
\<close>

definition catalogue :: cancan where
  "catalogue = snd (allow world (Fn 1) (Str ''read'') (Fn 2) (Obj 30) engine)"

definition fragile :: cancan where
  "fragile = snd (allow world (Fn 1) (Str ''read'') (Fn 2) (Fn 200)
                   (snd (allow world (Fn 1) (Str ''read'') (Fn 2) Undefined engine)))"

definition generous :: cancan where
  "generous = snd (allow world (Fn 1) (Str ''manage'') (Str ''all'') Undefined catalogue)"


definition curious :: cancan where
  "curious = snd (allow world (Fn 1) (Str ''read'') (Fn 2) (Fn 205) engine)"

section \<open>Filters and promises\<close>

lemma strict_eq_all [simp]: "strict_eq v (Str s) = (v = Str s)"
  by (cases v) simp_all

lemma array_filter_total:
  "\<forall>x\<in>set xs. \<exists>b. f x = Inr b \<Longrightarrow>
     array_filter f xs = Inr (filter (\<lambda>x. f x = Inr True) xs)"
  by (induction xs) auto

lemma array_filter_Inr_D:
  "array_filter f xs = Inr ys \<Longrightarrow>
     (\<forall>x\<in>set xs. \<exists>b. f x = Inr b) \<and> ys = filter (\<lambda>x. f x = Inr True) xs"
proof (induction xs arbitrary: ys)
  case Nil
  then show ?case by simp
next
  case (Cons x xs)
  from Cons.prems obtain b zs where b: "f x = Inr b" and zs: "array_filter f xs = Inr zs"
    and ys: "ys = (if b then x # zs else zs)"
    by (auto split: sum.splits)
  from Cons.IH [OF zs] b ys show ?case
    by auto
qed

lemma array_filter_Inr:
  "array_filter f xs = Inr ys \<longleftrightarrow>
     (\<forall>x\<in>set xs. \<exists>b. f x = Inr b) \<and> ys = filter (\<lambda>x. f x = Inr True) xs"
  using array_filter_Inr_D [of f xs ys] array_filter_total [of xs f]
  by blast

lemma model_filter_True: "(model_filter eng performer ab = Inr True) = holds (instanceOf eng performer (model ab))"
  by (simp add: model_filter_def to_boolean_def holds_def split: sum.splits)

lemma target_filter_True:
  "(target_filter eng tgt ab = Inr True)
     = (target ab = Str ''all'' \<or> strict_eq tgt (target ab) \<or> holds (instanceOf eng tgt (target ab)))"
  by (simp add: target_filter_def to_boolean_def holds_def split: sum.splits)

lemma filteredAbilities_Inr:
  assumes "filteredAbilities eng performer act tgt = Inr fa"
  shows "fa = filter (rule_applies eng performer act tgt) (abilities eng)"
proof -
  from assms obtain xs ys where
    xs: "array_filter (model_filter eng performer) (abilities eng) = Inr xs" and
    ys: "array_filter (target_filter eng tgt) xs = Inr ys" and
    fa: "fa = filter (action_filter act) ys"
    by (auto simp: filteredAbilities_def split: sum.splits)
  from xs have xs': "xs = filter (\<lambda>ab. holds (instanceOf eng performer (model ab))) (abilities eng)"
    by (simp add: array_filter_Inr model_filter_True)
  from ys have ys': "ys = filter (\<lambda>ab. target ab = Str ''all'' \<or> strict_eq tgt (target ab)
                         \<or> holds (instanceOf eng tgt (target ab))) xs"
    by (simp add: array_filter_Inr target_filter_True)
  from fa xs' ys' show ?thesis
    by (simp add: action_filter_def rule_applies_def [abs_def])
qed

lemma call_blind:
  "blind rt \<Longrightarrow> call rt c [performer, tgt, New j] = call rt c [performer, tgt, New k]"
  by (auto simp: call_def blind_def arg_def split: cond.splits val.splits)

lemma check_settle:
  assumes "truthy opts \<or> blind rt"
  shows "fst (check rt performer tgt opts ab s)
       = settle rt performer tgt (if truthy opts then opts else New k) ab"
proof (cases "truthy opts")
  case True
  then show ?thesis
    by (simp add: check_def settle_def options_or_empty_def)
next
  case False
  with assms have "blind rt" by simp
  then have "call rt (condition ab) [performer, tgt, New (created s)]
               = call rt (condition ab) [performer, tgt, New k]"
    by (rule call_blind)
  with False show ?thesis
    by (simp add: check_def settle_def options_or_empty_def empty_object_def)
qed

lemma array_map_settle:
  "truthy opts \<or> blind rt \<Longrightarrow>
     fst (array_map (check rt performer tgt opts) fa s)
       = map (settle rt performer tgt (if truthy opts then opts else New k)) fa"
proof (induction fa arbitrary: s)
  case Nil
  show ?case by simp
next
  case (Cons ab fa)
  from Cons.prems have head: "fst (check rt performer tgt opts ab s)
       = settle rt performer tgt (if truthy opts then opts else New k) ab"
    by (rule check_settle)
  obtain p s1 where p: "check rt performer tgt opts ab s = (p, s1)"
    by (cases "check rt performer tgt opts ab s")
  obtain ps s2 where ps: "array_map (check rt performer tgt opts) fa s1 = (ps, s2)"
    by (cases "array_map (check rt performer tgt opts) fa s1")
  from Cons.IH [OF Cons.prems, of s1] ps
  have "ps = map (settle rt performer tgt (if truthy opts then opts else New k)) fa"
    by simp
  with head p ps show ?case
    by simp
qed

lemma first_rejection_None:
  "first_rejection ps = None \<longleftrightarrow> (\<forall>t e. RejectedAt t e \<notin> set ps)"
  by (induction ps) (auto split: promise.splits option.splits)


lemma those_Fulfilled: "those (map fulfilment (map Fulfilled vs)) = Some vs"
  by (induction vs) simp_all

lemma those_fulfilment_D:
  "those (map fulfilment ps) = Some vs \<Longrightarrow> ps = map Fulfilled vs"
proof (induction ps arbitrary: vs)
  case Nil
  then show ?case by simp
next
  case (Cons p ps)
  then show ?case
    by (cases p) (auto split: option.splits)
qed

lemma those_fulfilment:
  "those (map fulfilment ps) = Some vs \<longleftrightarrow> ps = map Fulfilled vs"
  using those_fulfilment_D [of ps vs] those_Fulfilled [of vs]
  by blast

lemma promise_all_Resolved:
  "promise_all ps = Resolved vs \<longleftrightarrow> ps = map Fulfilled vs"
proof
  assume "promise_all ps = Resolved vs"
  then show "ps = map Fulfilled vs"
    by (auto simp: promise_all_def those_fulfilment split: option.splits prod.splits)
next
  assume eq: "ps = map Fulfilled vs"
  then have "first_rejection ps = None"
    by (auto simp: first_rejection_None)
  moreover from eq those_Fulfilled [of vs] have "those (map fulfilment ps) = Some vs"
    by blast
  ultimately show "promise_all ps = Resolved vs"
    by (simp add: promise_all_def)
qed

lemma can_cases:
  "fst (can rt eng performer act tgt opts s)
     = (case filteredAbilities eng performer act tgt of
          Inl e \<Rightarrow> Rejected e
        | Inr fa \<Rightarrow>
            and_then (promise_all (promises rt performer tgt opts fa s))
              (\<lambda>vs. \<exists>v\<in>set vs. truthy v))"
proof (cases "filteredAbilities eng performer act tgt")
  case (Inl e)
  then show ?thesis by (simp add: can_def)
next
  case (Inr fa)
  obtain ps s1 where ps: "array_map (check rt performer tgt opts) fa s = (ps, s1)"
    by (cases "array_map (check rt performer tgt opts) fa s")
  have "and_then (and_then (promise_all ps) (filter truthy)) (\<lambda>passed. 0 < length passed)
          = and_then (promise_all ps) (\<lambda>vs. \<exists>v\<in>set vs. truthy v)"
    by (cases "promise_all ps") (auto simp: filter_empty_conv)
  with Inr ps show ?thesis
    by (simp add: can_def filterAsync_def mapAsync_def promises_def)
qed

lemma promises_settle:
  "truthy opts \<or> blind rt \<Longrightarrow>
     promises rt performer tgt opts fa s
       = map (settle rt performer tgt (if truthy opts then opts else New k)) fa"
  unfolding promises_def by (rule array_map_settle)

lemma can_resolved:
  assumes filters: "filteredAbilities eng performer act tgt = Inr fa"
    and pure: "truthy opts \<or> blind rt"
    and ob: "ob = (if truthy opts then opts else New k)"
    and fulfilled: "\<forall>ab\<in>set fa. \<exists>v. settle rt performer tgt ob ab = Fulfilled v"
  shows "fst (can rt eng performer act tgt opts s)
           = Resolved (\<exists>ab\<in>set fa. passes rt performer tgt ob ab)"
proof -
  let ?ps = "map (settle rt performer tgt ob) fa"
  define vs where "vs = map (\<lambda>ab. case settle rt performer tgt ob ab of Fulfilled v \<Rightarrow> v
                                   | _ \<Rightarrow> Undefined) fa"
  from fulfilled have ps: "?ps = map Fulfilled vs"
    by (auto simp: vs_def)
  then have all: "promise_all ?ps = Resolved vs"
    by (simp only: promise_all_Resolved)
  from fulfilled have "(\<exists>v\<in>set vs. truthy v) = (\<exists>ab\<in>set fa. passes rt performer tgt ob ab)"
    by (auto simp: vs_def passes_def split: promise.splits)
  with all filters promises_settle [OF pure, of performer tgt fa s k] ob show ?thesis
    by (simp add: can_cases)
qed

lemma filteredAbilities_iff:
  "filteredAbilities eng performer act tgt = Inr fa \<longleftrightarrow>
     (\<forall>ab\<in>set (abilities eng). \<exists>b. model_filter eng performer ab = Inr b)
     \<and> (\<forall>ab\<in>set (abilities eng). model_filter eng performer ab = Inr True
           \<longrightarrow> (\<exists>b. target_filter eng tgt ab = Inr b))
     \<and> fa = filter (rule_applies eng performer act tgt) (abilities eng)"
  (is "?lhs \<longleftrightarrow> ?total1 \<and> ?total2 \<and> ?fa")
proof
  assume lhs: ?lhs
  then obtain xs ys where
    xs: "array_filter (model_filter eng performer) (abilities eng) = Inr xs" and
    ys: "array_filter (target_filter eng tgt) xs = Inr ys"
    by (auto simp: filteredAbilities_def split: sum.splits)
  from xs have "?total1" and xs': "xs = filter (\<lambda>ab. model_filter eng performer ab = Inr True) (abilities eng)"
    by (simp_all add: array_filter_Inr)
  moreover from ys xs' have ?total2
    by (simp add: array_filter_Inr)
  moreover from lhs have ?fa
    by (rule filteredAbilities_Inr)
  ultimately show "?total1 \<and> ?total2 \<and> ?fa"
    by simp
next
  assume rhs: "?total1 \<and> ?total2 \<and> ?fa"
  let ?xs = "filter (\<lambda>ab. model_filter eng performer ab = Inr True) (abilities eng)"
  let ?ys = "filter (\<lambda>ab. target_filter eng tgt ab = Inr True) ?xs"
  from rhs have xs: "array_filter (model_filter eng performer) (abilities eng) = Inr ?xs"
    by (simp add: array_filter_total)
  from rhs have ys: "array_filter (target_filter eng tgt) ?xs = Inr ?ys"
    by (simp add: array_filter_total)
  from xs ys have eq: "filteredAbilities eng performer act tgt = Inr (filter (action_filter act) ?ys)"
    by (simp add: filteredAbilities_def)
  from filteredAbilities_Inr [OF eq] rhs have "fa = filter (action_filter act) ?ys"
    by simp
  with eq show ?lhs
    by simp
qed



lemma invocations_Nil [simp]: "invocations performer tgt opts n [] = []"
  by (simp add: invocations_def)

lemma invocations_skip:
  "\<not> present (condition ab) \<Longrightarrow>
     invocations performer tgt opts n (ab # fa) = invocations performer tgt opts n fa"
  by (simp add: invocations_def)

lemma invocations_truthy:
  "present (condition ab) \<Longrightarrow> truthy opts \<Longrightarrow>
     invocations performer tgt opts n (ab # fa)
       = (condition ab, [performer, tgt, opts]) # invocations performer tgt opts m fa"
  by (simp add: invocations_def Let_def)

lemma invocations_falsy:
  "present (condition ab) \<Longrightarrow> \<not> truthy opts \<Longrightarrow>
     invocations performer tgt opts n (ab # fa)
       = (condition ab, [performer, tgt, New n]) # invocations performer tgt opts (Suc n) fa"
  by (simp add: invocations_def Let_def upt_rec [of n])

lemma check_store:
  "snd (check rt performer tgt opts ab s)
     = (if present (condition ab) then
          if truthy opts then s\<lparr>calls := calls s @ [(condition ab, [performer, tgt, opts])]\<rparr>
          else s\<lparr>created := Suc (created s),
                 calls := calls s @ [(condition ab, [performer, tgt, New (created s)])]\<rparr>
        else s)"
  by (simp add: check_def options_or_empty_def empty_object_def)

lemma array_map_store:
  "snd (array_map (check rt performer tgt opts) fa s)
     = s\<lparr>created := created s
            + (if truthy opts then 0 else length (filter (\<lambda>ab. present (condition ab)) fa)),
          calls := calls s @ invocations performer tgt opts (created s) fa\<rparr>"
proof (induction fa arbitrary: s)
  case Nil
  show ?case by simp
next
  case (Cons ab fa)
  obtain p s1 where p: "check rt performer tgt opts ab s = (p, s1)"
    by (cases "check rt performer tgt opts ab s")
  obtain ps s2 where ps: "array_map (check rt performer tgt opts) fa s1 = (ps, s2)"
    by (cases "array_map (check rt performer tgt opts) fa s1")
  from p check_store [of rt performer tgt opts ab s]
  have s1: "s1 = (if present (condition ab) then
          if truthy opts then s\<lparr>calls := calls s @ [(condition ab, [performer, tgt, opts])]\<rparr>
          else s\<lparr>created := Suc (created s),
                 calls := calls s @ [(condition ab, [performer, tgt, New (created s)])]\<rparr>
        else s)"
    by simp
  from ps Cons.IH [of s1]
  have s2: "s2 = s1\<lparr>created := created s1
            + (if truthy opts then 0 else length (filter (\<lambda>ab. present (condition ab)) fa)),
          calls := calls s1 @ invocations performer tgt opts (created s1) fa\<rparr>"
    by simp
  show ?case
  proof (cases "present (condition ab)")
    case False
    with s1 s2 p ps show ?thesis
      by (simp add: invocations_skip)
  next
    case True
    show ?thesis
    proof (cases "truthy opts")
      case truthy: True
      with True s1 s2 p ps show ?thesis
        by (simp add: invocations_truthy [of ab opts performer tgt "created s" fa "created s"])
    next
      case False
      with True s1 s2 p ps show ?thesis
        by (simp add: invocations_falsy)
    qed
  qed
qed

lemma can_store:
  "snd (can rt eng performer act tgt opts s)
     = (case filteredAbilities eng performer act tgt of
          Inl e \<Rightarrow> s
        | Inr fa \<Rightarrow> snd (array_map (check rt performer tgt opts) fa s))"
  by (simp add: can_def filterAsync_def mapAsync_def split: sum.splits prod.splits)

lemma cannot_store:
  "snd (cannot rt eng args s) = snd (can_apply rt eng args s)"
  by (simp add: cannot_def split: prod.splits)

lemma authorize_store:
  "snd (authorize rt eng args s) = snd (can_apply rt eng args s)"
  by (simp add: authorize_def cannot_def split: prod.splits outcome.splits sum.splits)

lemma falsy_values:
  "(\<not> truthy v) = (v \<in> {Undefined, Null, Bool False, Number 0, NaN, Str ''''})"
  by (cases v) auto

lemma array_map_fst_Cons:
  "fst (array_map fn (x # xs) s) = fst (fn x s) # fst (array_map fn xs (snd (fn x s)))"
  by (simp split: prod.splits)

lemma array_map_length: "length (fst (array_map fn xs s)) = length xs"
  by (induction xs arbitrary: s) (simp_all add: array_map_fst_Cons del: array_map.simps(2))

lemma check_promise:
  "fst (check rt performer tgt opts ab s)
     = (if present (condition ab)
        then await (call rt (condition ab)
                      [performer, tgt, if truthy opts then opts else New (created s)])
        else Fulfilled (Bool True))"
  by (simp add: check_def options_or_empty_def empty_object_def)

lemma check_created:
  "created (snd (check rt performer tgt opts ab s))
     = (if present (condition ab) \<and> \<not> truthy opts then Suc (created s) else created s)"
  by (simp add: check_def options_or_empty_def empty_object_def)

lemma handed_0:
  "handed opts s fa 0 = (if truthy opts then opts else New (created s))"
  by (simp add: handed_def)

lemma handed_Suc:
  "handed opts s (ab # fa) (Suc i)
     = handed opts (snd (check rt performer tgt opts ab s)) fa i"
  by (simp add: handed_def check_created)

lemma promises_nth:
  "i < length fa \<Longrightarrow>
     promises rt performer tgt opts fa s ! i
       = (if present (condition (fa ! i))
          then await (call rt (condition (fa ! i)) [performer, tgt, handed opts s fa i])
          else Fulfilled (Bool True))"
proof (induction fa arbitrary: s i)
  case Nil
  then show ?case by simp
next
  case (Cons ab fa)
  show ?case
  proof (cases i)
    case 0
    then show ?thesis
      by (simp add: promises_def array_map_fst_Cons check_promise handed_0
               del: array_map.simps(2))
  next
    case (Suc j)
    with Cons.prems have j: "j < length fa" by simp
    from Cons.IH [OF j, of "snd (check rt performer tgt opts ab s)"] Suc
    show ?thesis
      by (simp add: promises_def array_map_fst_Cons
               handed_Suc [of opts s ab fa j rt performer tgt]
               del: array_map.simps(2))
  qed
qed

lemma promises_length: "length (promises rt performer tgt opts fa s) = length fa"
  by (simp add: promises_def array_map_length)



lemma present_count_less:
  assumes "i < j" and "j \<le> length fa" and "P (fa ! i)"
  shows "length (filter P (take i fa)) < length (filter P (take j fa))"
proof -
  from assms have i: "i < length fa" by simp
  from assms(1) have "take j fa = take (Suc i) fa @ take (j - Suc i) (drop (Suc i) fa)"
    by (metis Suc_leI le_add_diff_inverse take_add)
  with take_Suc_conv_app_nth [OF i] assms(3) show ?thesis
    by simp
qed

lemma blind_world: "blind world"
  by (simp add: blind_def world_def arg_def)

lemma isPartiallyEqual_world:
  "isPartiallyEqual world tgt obj = isPartiallyEqual objects tgt obj"
proof -
  have fields: "keys world = keys objects" "property world = property objects"
    "call_method world = call_method objects"
    by (simp_all add: world_def)
  show ?thesis
    unfolding isPartiallyEqual_def key_equal_def [abs_def] get_def read_def object_keys_def fields
    by (rule refl)
qed

section \<open>Declaring rules\<close>

lemma typeof_undefined [simp]: "(typeof v = ''undefined'') = (v = Undefined)"
  by (cases v) simp_all

lemma typeof_function [simp]: "(typeof v = ''function'') = (\<exists>f. v = Fn f)"
  by (cases v) simp_all

lemma fold_push:
  "abilities (fold (\<lambda>t. push (g t)) ts eng) = abilities eng @ map g ts"
  by (induction ts arbitrary: eng) (simp_all add: push_def)

lemma fold_fold_push:
  "abilities (fold (\<lambda>a. fold (\<lambda>t. push (g a t)) ts) as eng)
     = abilities eng @ concat (map (\<lambda>a. map (g a) ts) as)"
  by (induction as arbitrary: eng) (simp_all add: fold_push)

lemma forEach_fold: "forEach xs f = fold f xs"
  by (rule ext) (simp add: forEach_def)

lemma fold_push_rest:
  "instanceOf (fold (\<lambda>t. push (g t)) ts eng) = instanceOf eng
   \<and> createError (fold (\<lambda>t. push (g t)) ts eng) = createError eng"
  by (induction ts arbitrary: eng) (simp_all add: push_def)

text \<open>
  C3. \<^verbatim>\<open>allow\<close> throws exactly when the condition is present (not \<^verbatim>\<open>undefined\<close>), is
  not a function and is not a plain object. What it throws is a \<^verbatim>\<open>TypeError\<close> whose
  message ends with the \<^verbatim>\<open>typeof\<close> of the condition, and the engine is left as it was.
  A condition \<^verbatim>\<open>undefined\<close> never makes it throw.
\<close>

theorem allow_invalid_condition:
  "((\<exists>e. fst (allow rt m actions targets cnd eng) = Inl e)
      \<longleftrightarrow> (cnd \<noteq> Undefined \<and> (\<forall>f. cnd \<noteq> Fn f) \<and> \<not> isObject rt cnd))
   \<and> (\<forall>e. fst (allow rt m actions targets cnd eng) = Inl e \<longrightarrow>
          e = TypeError (''Expected condition to be object or function, got '' @ typeof cnd)
          \<and> snd (allow rt m actions targets cnd eng) = eng)
   \<and> fst (allow rt m actions targets Undefined eng) = Inr ()"
  by (auto simp: allow_def Let_def)

theorem allow_invalid_condition_witness:
  "fst (allow world (Fn 1) (Str ''read'') (Fn 2) (Str ''abc'') engine)
     = Inl (TypeError ''Expected condition to be object or function, got string'')
   \<and> snd (allow world (Fn 1) (Str ''read'') (Fn 2) (Str ''abc'') engine) = engine"
proof -
  let ?r = "allow world (Fn 1) (Str ''read'') (Fn 2) (Str ''abc'') engine"
  note inst = allow_invalid_condition
    [of world "Fn 1" "Str ''read''" "Fn 2" "Str ''abc''" engine]
  have "Str ''abc'' \<noteq> Undefined \<and> (\<forall>f. Str ''abc'' \<noteq> Fn f) \<and> \<not> isObject world (Str ''abc'')"
    by (simp add: isObject_def)
  with inst obtain e where e: "fst ?r = Inl e"
    by blast
  with inst have "e = TypeError (''Expected condition to be object or function, got ''
                               @ typeof (Str ''abc'')) \<and> snd ?r = engine"
    by blast
  with e show ?thesis
    by simp
qed

text \<open>
  C2, as amended. A call of \<^verbatim>\<open>allow\<close> that does not throw appends one rule for every
  pair of an action of \<^verbatim>\<open>arrify(actions)\<close> and a target of \<^verbatim>\<open>arrify(targets)\<close>, the
  actions in the outer loop, all with the same model and the same condition; there are
  as many new rules as the product of the two lengths, duplicates included. An array is
  taken as its elements, a value that is neither \<^verbatim>\<open>undefined\<close>, \<^verbatim>\<open>null\<close> nor an array
  as the one-element sequence of itself, and \<^verbatim>\<open>undefined\<close> and \<^verbatim>\<open>null\<close> as the empty
  sequence.
\<close>

theorem allow_appends_product:
  "(fst (allow rt m actions targets cnd eng) = Inr () \<longrightarrow>
      abilities (snd (allow rt m actions targets cnd eng))
        = abilities eng @
          concat (map (\<lambda>a. map (\<lambda>t. \<lparr>model = m, action = a, target = t,
                                      condition = (if isObject rt cnd then Closure cnd
                                                   else Given cnd)\<rparr>)
                            (arrify rt targets))
                      (arrify rt actions))
      \<and> length (abilities (snd (allow rt m actions targets cnd eng)))
        = length (abilities eng) + length (arrify rt actions) * length (arrify rt targets))
   \<and> (\<forall>a xs. elements rt a = Some xs \<longrightarrow> arrify rt (Obj a) = xs)
   \<and> (\<forall>v. v \<noteq> Undefined \<and> v \<noteq> Null \<and> (\<forall>a. v = Obj a \<longrightarrow> elements rt a = None)
          \<longrightarrow> arrify rt v = [v])
   \<and> arrify rt Undefined = [] \<and> arrify rt Null = []"
proof -
  have rules: "abilities (snd (allow rt m actions targets cnd eng))
        = abilities eng @
          concat (map (\<lambda>a. map (\<lambda>t. \<lparr>model = m, action = a, target = t,
                                      condition = (if isObject rt cnd then Closure cnd
                                                   else Given cnd)\<rparr>)
                            (arrify rt targets))
                      (arrify rt actions))"
    if "fst (allow rt m actions targets cnd eng) = Inr ()"
    using that
    by (auto simp: allow_def Let_def forEach_fold fold_fold_push getConditionFn_def
             split: if_splits)
  have count: "length (concat (map (\<lambda>a. map (g a) ts) as)) = length as * length ts"
    for g :: "val \<Rightarrow> val \<Rightarrow> ability" and ts as
    by (induction as) simp_all
  have arrays: "\<forall>a xs. elements rt a = Some xs \<longrightarrow> arrify rt (Obj a) = xs"
    by (simp add: arrify_def)
  have scalars: "\<forall>v. v \<noteq> Undefined \<and> v \<noteq> Null \<and> (\<forall>a. v = Obj a \<longrightarrow> elements rt a = None)
          \<longrightarrow> arrify rt v = [v]"
    by (auto simp: arrify_def split: val.splits)
  have absent: "arrify rt Undefined = [] \<and> arrify rt Null = []"
    by (simp add: arrify_def)
  from rules count arrays scalars absent show ?thesis
    by simp
qed

theorem allow_appends_product_witness:
  "fst (allow world (Fn 1) (Obj 40) (Fn 2) (Obj 30) engine) = Inr ()
   \<and> abilities (snd (allow world (Fn 1) (Obj 40) (Fn 2) (Obj 30) engine))
       = [\<lparr>model = Fn 1, action = Str ''read'', target = Fn 2, condition = Closure (Obj 30)\<rparr>,
          \<lparr>model = Fn 1, action = Str ''create'', target = Fn 2, condition = Closure (Obj 30)\<rparr>,
          \<lparr>model = Fn 1, action = Str ''destroy'', target = Fn 2, condition = Closure (Obj 30)\<rparr>]
   \<and> arrify world (Str ''read'') = [Str ''read'']"
proof -
  let ?r = "allow world (Fn 1) (Obj 40) (Fn 2) (Obj 30) engine"
  note inst = allow_appends_product [of world "Fn 1" "Obj 40" "Fn 2" "Obj 30" engine]
  have ok: "fst ?r = Inr ()"
    by code_simp
  with inst have "abilities (snd ?r)
        = abilities engine @
          concat (map (\<lambda>a. map (\<lambda>t. \<lparr>model = Fn 1, action = a, target = t,
                                      condition = (if isObject world (Obj 30)
                                                   then Closure (Obj 30)
                                                   else Given (Obj 30))\<rparr>)
                            (arrify world (Fn 2)))
                      (arrify world (Obj 40)))"
    by blast
  also have "\<dots> = [\<lparr>model = Fn 1, action = Str ''read'', target = Fn 2, condition = Closure (Obj 30)\<rparr>,
          \<lparr>model = Fn 1, action = Str ''create'', target = Fn 2, condition = Closure (Obj 30)\<rparr>,
          \<lparr>model = Fn 1, action = Str ''destroy'', target = Fn 2, condition = Closure (Obj 30)\<rparr>]"
    by code_simp
  finally have rules: "abilities (snd ?r)
       = [\<lparr>model = Fn 1, action = Str ''read'', target = Fn 2, condition = Closure (Obj 30)\<rparr>,
          \<lparr>model = Fn 1, action = Str ''create'', target = Fn 2, condition = Closure (Obj 30)\<rparr>,
          \<lparr>model = Fn 1, action = Str ''destroy'', target = Fn 2, condition = Closure (Obj 30)\<rparr>]" .
  have "Str ''read'' \<noteq> Undefined \<and> Str ''read'' \<noteq> Null
        \<and> (\<forall>a. Str ''read'' = Obj a \<longrightarrow> elements world a = None)"
    by simp
  with inst have "arrify world (Str ''read'') = [Str ''read'']"
    by blast
  with ok rules show ?thesis
    by simp
qed

text \<open>
  C2 as stated fails on \<^verbatim>\<open>null\<close> (and \<^verbatim>\<open>undefined\<close>): \<^verbatim>\<open>allow(User, 'read', null)\<close>
  returns normally and appends no rule, where a one-element sequence of targets would
  give one.
\<close>

theorem allow_scalar_counterexample:
  "fst (allow world (Fn 1) (Str ''read'') Null Undefined engine) = Inr ()
   \<and> abilities (snd (allow world (Fn 1) (Str ''read'') Null Undefined engine)) = abilities engine
   \<and> arrify world Null \<noteq> [Null]"
  by code_simp

section \<open>Queries\<close>

text \<open>
  C5. \<^verbatim>\<open>cannot\<close> calls \<^verbatim>\<open>can\<close> once, with its own arguments, and negates the boolean
  it resolves to; a rejection of \<^verbatim>\<open>can\<close> is a rejection of \<^verbatim>\<open>cannot\<close> with the same
  reason, and \<^verbatim>\<open>cannot\<close> stays pending when \<^verbatim>\<open>can\<close> does. It leaves the store as
  \<^verbatim>\<open>can\<close> leaves it.
\<close>

theorem cannot_complement:
  "fst (cannot rt eng args s)
     = (case fst (can rt eng (arg args 0) (arg args 1) (arg args 2) (arg args 3) s) of
          Resolved b \<Rightarrow> Resolved (\<not> b)
        | Rejected e \<Rightarrow> Rejected e
        | Pending \<Rightarrow> Pending)
   \<and> snd (cannot rt eng args s)
     = snd (can rt eng (arg args 0) (arg args 1) (arg args 2) (arg args 3) s)
   \<and> fst (cannot rt eng [performer, act, tgt, opts] s)
     = (case fst (can rt eng performer act tgt opts s) of
          Resolved b \<Rightarrow> Resolved (\<not> b)
        | Rejected e \<Rightarrow> Rejected e
        | Pending \<Rightarrow> Pending)"
proof -
  have general: "fst (cannot rt eng xs s)
     = (case fst (can rt eng (arg xs 0) (arg xs 1) (arg xs 2) (arg xs 3) s) of
          Resolved b \<Rightarrow> Resolved (\<not> b)
        | Rejected e \<Rightarrow> Rejected e
        | Pending \<Rightarrow> Pending)" for xs
    by (simp add: cannot_def can_apply_def split: prod.splits outcome.splits)
  have store: "snd (cannot rt eng args s)
     = snd (can rt eng (arg args 0) (arg args 1) (arg args 2) (arg args 3) s)"
    by (simp add: cannot_def can_apply_def split: prod.splits)
  from general [of args] general [of "[performer, act, tgt, opts]"] store show ?thesis
    by (simp add: arg_def)
qed

theorem cannot_complement_witness:
  "fst (can world (snd (allow world (Fn 1) (Str ''read'') (Fn 2) (Fn 204) engine))
          (Obj 10) (Str ''read'') (Obj 20) Undefined fresh_store)
     = Rejected (Value (Str ''late''))
   \<and> fst (cannot world (snd (allow world (Fn 1) (Str ''read'') (Fn 2) (Fn 204) engine))
          [Obj 10, Str ''read'', Obj 20, Undefined] fresh_store)
     = Rejected (Value (Str ''late''))
   \<and> fst (can world (snd (allow world (Fn 1) (Str ''read'') (Fn 2) (Obj 30) engine))
          (Obj 10) (Str ''read'') (Obj 20) Undefined fresh_store)
     = Resolved False
   \<and> fst (cannot world (snd (allow world (Fn 1) (Str ''read'') (Fn 2) (Obj 30) engine))
          [Obj 10, Str ''read'', Obj 20, Undefined] fresh_store)
     = Resolved True"
proof -
  let ?late = "snd (allow world (Fn 1) (Str ''read'') (Fn 2) (Fn 204) engine)"
  let ?map = "snd (allow world (Fn 1) (Str ''read'') (Fn 2) (Obj 30) engine)"
  have late: "fst (can world ?late (Obj 10) (Str ''read'') (Obj 20) Undefined fresh_store)
     = Rejected (Value (Str ''late''))"
    by code_simp
  have denied: "fst (can world ?map (Obj 10) (Str ''read'') (Obj 20) Undefined fresh_store)
     = Resolved False"
    by code_simp
  from late denied
    cannot_complement [of world ?late "[]" fresh_store "Obj 10" "Str ''read''" "Obj 20" Undefined]
    cannot_complement [of world ?map "[]" fresh_store "Obj 10" "Str ''read''" "Obj 20" Undefined]
  show ?thesis
    by simp
qed

text \<open>
  C6. When \<^verbatim>\<open>can\<close> on the arguments of \<^verbatim>\<open>authorize\<close> resolves to true,
  \<^verbatim>\<open>authorize\<close> resolves with no value. When it resolves to false, the error factory of
  the engine is called with the very list of arguments \<^verbatim>\<open>authorize\<close> received, and
  \<^verbatim>\<open>authorize\<close> is rejected with what the factory returns (or with what it throws). The
  factory of an engine built without options returns an \<^verbatim>\<open>Error\<close> with the message
  \<^verbatim>\<open>Authorization error\<close>; the factory given in the options is used as it is.
\<close>

theorem authorize_outcome:
  "(fst (can rt eng (arg args 0) (arg args 1) (arg args 2) (arg args 3) s) = Resolved True
      \<longrightarrow> fst (authorize rt eng args s) = Resolved ())
   \<and> (fst (can rt eng (arg args 0) (arg args 1) (arg args 2) (arg args 3) s) = Resolved False
      \<longrightarrow> fst (authorize rt eng args s)
          = Rejected (case createError eng args of Inl e \<Rightarrow> e | Inr err \<Rightarrow> err))
   \<and> createError (CanCan rt None) args = Inr (Error ''Authorization error'')
   \<and> createError (CanCan rt (Some \<lparr>opt_instanceOf = io, opt_createError = None\<rparr>)) args
       = Inr (Error ''Authorization error'')
   \<and> createError (CanCan rt (Some \<lparr>opt_instanceOf = io, opt_createError = Some factory\<rparr>)) args
       = (case factory args of Inl e \<Rightarrow> Inl e | Inr v \<Rightarrow> Inr (Value v))"
  by (simp add: authorize_def cannot_def can_apply_def CanCan_def defaultCreateError_def
           split: prod.splits outcome.splits sum.splits)

theorem authorize_outcome_witness:
  "fst (authorize world (snd (allow world (Fn 1) (Str ''read'') (Fn 2) (Obj 30) engine))
          [Obj 10, Str ''read'', Obj 21] fresh_store) = Resolved ()
   \<and> fst (authorize world (snd (allow world (Fn 1) (Str ''read'') (Fn 2) (Obj 30) engine))
          [Obj 10, Str ''read'', Obj 20] fresh_store) = Rejected (Error ''Authorization error'')"
proof -
  let ?eng = "snd (allow world (Fn 1) (Str ''read'') (Fn 2) (Obj 30) engine)"
  let ?yes = "[Obj 10, Str ''read'', Obj 21]"
  let ?no = "[Obj 10, Str ''read'', Obj 20]"
  have granted: "fst (can world ?eng (arg ?yes 0) (arg ?yes 1) (arg ?yes 2) (arg ?yes 3)
                        fresh_store) = Resolved True"
    by code_simp
  have denied: "fst (can world ?eng (arg ?no 0) (arg ?no 1) (arg ?no 2) (arg ?no 3)
                       fresh_store) = Resolved False"
    by code_simp
  have factory: "createError ?eng ?no = Inr (Error ''Authorization error'')"
    by code_simp
  from granted authorize_outcome [of world ?eng ?yes fresh_store]
  have yes: "fst (authorize world ?eng ?yes fresh_store) = Resolved ()"
    by blast
  from denied authorize_outcome [of world ?eng ?no fresh_store]
  have "fst (authorize world ?eng ?no fresh_store)
          = Rejected (case createError ?eng ?no of Inl e \<Rightarrow> e | Inr err \<Rightarrow> err)"
    by blast
  with factory have no: "fst (authorize world ?eng ?no fresh_store)
          = Rejected (Error ''Authorization error'')"
    by simp
  from yes no show ?thesis
    by simp
qed







text \<open>
  C8. When \<^verbatim>\<open>can\<close> resolves to a boolean (the filters raise no exception and every
  condition called is fulfilled), it resolves to the same boolean on every registry that
  holds the same rules in another order. When \<^verbatim>\<open>options\<close> counts as false, the
  conditions are taken not to tell the empty objects of the engine apart.
\<close>

theorem can_order_independent:
  assumes perm: "mset rules = mset (abilities eng)"
    and pure: "truthy opts \<or> blind rt"
    and resolved: "fst (can rt eng performer act tgt opts s) = Resolved b"
  shows "fst (can rt (eng\<lparr>abilities := rules\<rparr>) performer act tgt opts s) = Resolved b"
proof -
  let ?eng = "eng\<lparr>abilities := rules\<rparr>"
  let ?ob = "if truthy opts then opts else New 0"
  from resolved obtain fa where fa: "filteredAbilities eng performer act tgt = Inr fa"
    by (cases "filteredAbilities eng performer act tgt") (simp_all add: can_cases)
  with resolved obtain vs where "promise_all (promises rt performer tgt opts fa s) = Resolved vs"
    by (cases "promise_all (promises rt performer tgt opts fa s)") (simp_all add: can_cases)
  then have "map (settle rt performer tgt ?ob) fa = map Fulfilled vs"
    by (simp add: promise_all_Resolved promises_settle [OF pure, of performer tgt fa s 0])
  then have fulfilled: "\<forall>ab\<in>set fa. \<exists>v. settle rt performer tgt ?ob ab = Fulfilled v"
    by (metis (no_types, lifting) imageE image_eqI list.set_map)
  from can_resolved [OF fa pure refl fulfilled, of s] resolved
  have b: "b = (\<exists>ab\<in>set fa. passes rt performer tgt ?ob ab)"
    by simp
  from perm have sets: "set rules = set (abilities eng)"
    by (rule mset_eq_setD)
  have same: "model_filter ?eng performer = model_filter eng performer"
    "target_filter ?eng tgt = target_filter eng tgt"
    "rule_applies ?eng performer act tgt = rule_applies eng performer act tgt"
    by (rule ext, simp add: model_filter_def target_filter_def rule_applies_def)+
  let ?fa = "filter (rule_applies eng performer act tgt) rules"
  from fa sets same have fa': "filteredAbilities ?eng performer act tgt = Inr ?fa"
    by (simp add: filteredAbilities_iff)
  from fa sets have set_fa: "set ?fa = set fa"
    by (simp add: filteredAbilities_iff)
  with fulfilled have "\<forall>ab\<in>set ?fa. \<exists>v. settle rt performer tgt ?ob ab = Fulfilled v"
    by (simp only:)
  from can_resolved [OF fa' pure refl this, of s]
  have "fst (can rt ?eng performer act tgt opts s)
          = Resolved (\<exists>ab\<in>set ?fa. passes rt performer tgt ?ob ab)" .
  also have "(\<exists>ab\<in>set ?fa. passes rt performer tgt ?ob ab)
               = (\<exists>ab\<in>set fa. passes rt performer tgt ?ob ab)"
    by (simp only: set_fa)
  finally show ?thesis
    by (simp only: b)
qed

theorem can_order_independent_witness:
  "fst (can world generous (Obj 10) (Str ''read'') (Obj 20) Undefined fresh_store)
     = Resolved True
   \<and> fst (can world (generous\<lparr>abilities := rev (abilities generous)\<rparr>)
            (Obj 10) (Str ''read'') (Obj 20) Undefined fresh_store)
     = Resolved True"
proof -
  have perm: "mset (rev (abilities generous)) = mset (abilities generous)"
    by simp
  have pure: "truthy Undefined \<or> blind world"
    by (simp add: blind_world)
  have r: "fst (can world generous (Obj 10) (Str ''read'') (Obj 20) Undefined fresh_store)
     = Resolved True"
    by code_simp
  from can_order_independent [OF perm pure r] r show ?thesis
    by simp
qed

text \<open>
  C9. The callback of a rule calls its condition, when it has one, with the performer, the
  target and, as third argument, the options of the caller when they count as true and
  otherwise an object that the engine creates for that call; its promise is what the
  \<^verbatim>\<open>await\<close> of that call gives. In a query the promise of the \<open>i\<close>-th rule the filters
  keep comes from the call with the third argument \<open>handed opts s fa i\<close>, and \<^verbatim>\<open>can\<close>
  is computed from these promises. That argument is the options themselves when they
  count as true; otherwise it is \<open>New k\<close> with \<open>k\<close> not below the number of objects
  created before the query, a plain object without keys, and the conditions of two rules
  never get the same one. The record of calls says the same: the calls a query makes are
  those of \<open>invocations\<close>, and when a filter throws no condition is called. The values
  that count as false are \<^verbatim>\<open>undefined\<close> (also an omitted argument), \<^verbatim>\<open>null\<close>,
  \<^verbatim>\<open>false\<close>, \<^verbatim>\<open>0\<close>, \<^verbatim>\<open>NaN\<close> and the empty string. \<^verbatim>\<open>cannot\<close> and
  \<^verbatim>\<open>authorize\<close> make the calls of \<^verbatim>\<open>can\<close>.
\<close>

theorem conditions_receive_options:
  "fst (check rt performer tgt opts ab s)
     = (if present (condition ab)
        then await (call rt (condition ab)
                      [performer, tgt, if truthy opts then opts else New (created s)])
        else Fulfilled (Bool True))
   \<and> (filteredAbilities eng performer act tgt = Inr fa \<longrightarrow>
        fst (can rt eng performer act tgt opts s)
          = and_then (promise_all (promises rt performer tgt opts fa s))
              (\<lambda>vs. \<exists>v\<in>set vs. truthy v)
        \<and> length (promises rt performer tgt opts fa s) = length fa
        \<and> (\<forall>n<length fa.
              promises rt performer tgt opts fa s ! n
                = (if present (condition (fa ! n))
                   then await (call rt (condition (fa ! n))
                                 [performer, tgt, handed opts s fa n])
                   else Fulfilled (Bool True))))
   \<and> (truthy opts \<longrightarrow> handed opts s fa i = opts)
   \<and> (\<not> truthy opts \<longrightarrow> (\<exists>k\<ge>created s. handed opts s fa i = New k))
   \<and> (\<not> truthy opts \<and> i < j \<and> j < length fa \<and> present (condition (fa ! i))
        \<longrightarrow> handed opts s fa i \<noteq> handed opts s fa j)
   \<and> (\<forall>e. filteredAbilities eng performer act tgt = Inl e \<longrightarrow>
        snd (can rt eng performer act tgt opts s) = s)
   \<and> (filteredAbilities eng performer act tgt = Inr fa \<longrightarrow>
      calls (snd (can rt eng performer act tgt opts s))
        = calls s @ invocations performer tgt opts (created s) fa
      \<and> created (snd (can rt eng performer act tgt opts s))
        = created s + (if truthy opts then 0
                       else length (filter (\<lambda>ab. present (condition ab)) fa)))
   \<and> snd (cannot rt eng [performer, act, tgt, opts] s)
       = snd (can rt eng performer act tgt opts s)
   \<and> snd (authorize rt eng [performer, act, tgt, opts] s)
       = snd (can rt eng performer act tgt opts s)
   \<and> typeof (New k) = ''object'' \<and> isObject rt (New k) \<and> object_keys rt (New k) = []
   \<and> ((\<not> truthy v) = (v \<in> {Undefined, Null, Bool False, Number 0, NaN, Str ''''}))
   \<and> can_apply rt eng [performer, act, tgt] s = can rt eng performer act tgt Undefined s"
proof -
  have callback: "fst (check rt performer tgt opts ab s)
     = (if present (condition ab)
        then await (call rt (condition ab)
                      [performer, tgt, if truthy opts then opts else New (created s)])
        else Fulfilled (Bool True))"
    by (rule check_promise)
  have query: "fst (can rt eng performer act tgt opts s)
          = and_then (promise_all (promises rt performer tgt opts fa s))
              (\<lambda>vs. \<exists>v\<in>set vs. truthy v)
        \<and> length (promises rt performer tgt opts fa s) = length fa
        \<and> (\<forall>n<length fa.
              promises rt performer tgt opts fa s ! n
                = (if present (condition (fa ! n))
                   then await (call rt (condition (fa ! n))
                                 [performer, tgt, handed opts s fa n])
                   else Fulfilled (Bool True)))"
    if "filteredAbilities eng performer act tgt = Inr fa"
    using that by (simp add: can_cases promises_length promises_nth)
  have kept: "truthy opts \<longrightarrow> handed opts s fa i = opts"
    by (simp add: handed_def)
  have made: "\<not> truthy opts \<longrightarrow> (\<exists>k\<ge>created s. handed opts s fa i = New k)"
    by (simp add: handed_def)
  have apart: "\<not> truthy opts \<and> i < j \<and> j < length fa \<and> present (condition (fa ! i))
        \<longrightarrow> handed opts s fa i \<noteq> handed opts s fa j"
  proof
    assume h: "\<not> truthy opts \<and> i < j \<and> j < length fa \<and> present (condition (fa ! i))"
    then have "length (filter (\<lambda>ab. present (condition ab)) (take i fa))
                 < length (filter (\<lambda>ab. present (condition ab)) (take j fa))"
      by (intro present_count_less) simp_all
    with h show "handed opts s fa i \<noteq> handed opts s fa j"
      by (simp add: handed_def)
  qed
  have log: "calls (snd (can rt eng performer act tgt opts s))
        = calls s @ invocations performer tgt opts (created s) fa
      \<and> created (snd (can rt eng performer act tgt opts s))
        = created s + (if truthy opts then 0
                       else length (filter (\<lambda>ab. present (condition ab)) fa))"
    if "filteredAbilities eng performer act tgt = Inr fa"
    using that by (simp add: can_store array_map_store)
  have others: "snd (cannot rt eng [performer, act, tgt, opts] s)
       = snd (can rt eng performer act tgt opts s)"
    "snd (authorize rt eng [performer, act, tgt, opts] s)
       = snd (can rt eng performer act tgt opts s)"
    by (simp_all add: cannot_store authorize_store can_apply_def arg_def)
  have empty: "typeof (New k) = ''object'' \<and> isObject rt (New k) \<and> object_keys rt (New k) = []"
    by (simp add: isObject_def object_keys_def)
  have omitted: "can_apply rt eng [performer, act, tgt] s
                   = can rt eng performer act tgt Undefined s"
    by (simp add: can_apply_def arg_def)
  have none: "\<forall>e. filteredAbilities eng performer act tgt = Inl e \<longrightarrow>
        snd (can rt eng performer act tgt opts s) = s"
    by (simp add: can_store)
  from callback query kept made apart none log others empty omitted falsy_values [of v]
  show ?thesis
    by blast
qed

theorem conditions_receive_options_witness:
  "fst (check world (Obj 10) (Obj 20) Undefined
          \<lparr>model = Fn 1, action = Str ''read'', target = Fn 2, condition = Given (Fn 205)\<rparr>
          fresh_store)
     = Fulfilled (Bool False)
   \<and> call world (Given (Fn 205)) [Obj 10, Obj 20, Undefined] = Returns (Bool True)
   \<and> call world (Given (Fn 205)) [Obj 10, Obj 20, New 0] = Returns (Bool False)
   \<and> fst (can world curious (Obj 10) (Str ''read'') (Obj 20) Undefined fresh_store)
     = Resolved False
   \<and> calls (snd (can world fragile (Obj 10) (Str ''read'') (Obj 20) (Number 0) fresh_store))
     = [(Given (Fn 200), [Obj 10, Obj 20, New 0])]
   \<and> calls (snd (can world fragile (Obj 10) (Str ''read'') (Obj 20) (Obj 50) fresh_store))
     = [(Given (Fn 200), [Obj 10, Obj 20, Obj 50])]"
proof -
  let ?r = "\<lparr>model = Fn 1, action = Str ''read'', target = Fn 2, condition = Given (Fn 205)\<rparr>"
  let ?fa = "[\<lparr>model = Fn 1, action = Str ''read'', target = Fn 2, condition = Given Undefined\<rparr>,
              \<lparr>model = Fn 1, action = Str ''read'', target = Fn 2, condition = Given (Fn 200)\<rparr>]"
  have arg: "(if present (condition ?r)
        then await (call world (condition ?r)
                      [Obj 10, Obj 20, if truthy Undefined then Undefined
                                       else New (created fresh_store)])
        else Fulfilled (Bool True)) = Fulfilled (Bool False)"
    by code_simp
  have calls: "call world (Given (Fn 205)) [Obj 10, Obj 20, Undefined] = Returns (Bool True)
               \<and> call world (Given (Fn 205)) [Obj 10, Obj 20, New 0] = Returns (Bool False)"
    by code_simp
  have query: "fst (can world curious (Obj 10) (Str ''read'') (Obj 20) Undefined fresh_store)
     = Resolved False"
    by code_simp
  have f: "filteredAbilities fragile (Obj 10) (Str ''read'') (Obj 20) = Inr ?fa"
    by code_simp
  have i0: "calls fresh_store @ invocations (Obj 10) (Obj 20) (Number 0) (created fresh_store) ?fa
              = [(Given (Fn 200), [Obj 10, Obj 20, New 0])]"
    by code_simp
  have i1: "calls fresh_store @ invocations (Obj 10) (Obj 20) (Obj 50) (created fresh_store) ?fa
              = [(Given (Fn 200), [Obj 10, Obj 20, Obj 50])]"
    by code_simp
  from arg calls query f i0 i1
    conditions_receive_options [where rt = world and performer = "Obj 10" and tgt = "Obj 20"
      and opts = Undefined and ab = ?r and s = fresh_store]
    conditions_receive_options [where eng = fragile and performer = "Obj 10"
      and act = "Str ''read''" and tgt = "Obj 20" and fa = ?fa and rt = world
      and opts = "Number 0" and s = fresh_store]
    conditions_receive_options [where eng = fragile and performer = "Obj 10"
      and act = "Str ''read''" and tgt = "Obj 20" and fa = ?fa and rt = world
      and opts = "Obj 50" and s = fresh_store]
  show ?thesis
    by simp
qed

section \<open>Rules that differ in their conditions\<close>

lemma array_filter_rel:
  assumes "list_all2 R xs ys" and "\<And>x y. R x y \<Longrightarrow> f x = g y"
  shows "rel_sum (=) (list_all2 R) (array_filter f xs) (array_filter g ys)"
  using assms(1)
proof (induction rule: list_all2_induct)
  case Nil
  show ?case by simp
next
  case (Cons x xs y ys)
  from Cons.hyps(1) have fg: "f x = g y" by (rule assms(2))
  show ?case
  proof (cases "g y")
    case (Inl e)
    with fg show ?thesis by simp
  next
    case (Inr b)
    with fg Cons.IH Cons.hyps(1) show ?thesis
      by (cases "array_filter f xs"; cases "array_filter g ys") auto
  qed
qed

lemma filter_rel:
  assumes "list_all2 R xs ys" and "\<And>x y. R x y \<Longrightarrow> P x = Q y"
  shows "list_all2 R (filter P xs) (filter Q ys)"
  using assms(1)
proof (induction rule: list_all2_induct)
  case Nil
  show ?case by simp
next
  case (Cons x xs y ys)
  from Cons.hyps(1) have "P x = Q y" by (rule assms(2))
  with Cons show ?case by simp
qed

lemma filteredAbilities_rel:
  assumes rel: "list_all2 R (abilities e1) (abilities e2)"
    and same: "\<And>x y. R x y \<Longrightarrow> model x = model y \<and> action x = action y \<and> target x = target y"
    and inst: "instanceOf e1 = instanceOf e2"
  shows "rel_sum (=) (list_all2 R) (filteredAbilities e1 performer act tgt)
           (filteredAbilities e2 performer act tgt)"
proof -
  have m: "model_filter e1 performer x = model_filter e2 performer y" if "R x y" for x y
    using same [OF that] inst by (simp add: model_filter_def)
  have t: "target_filter e1 tgt x = target_filter e2 tgt y" if "R x y" for x y
    using same [OF that] inst by (simp add: target_filter_def)
  have a: "action_filter act x = action_filter act y" if "R x y" for x y
    using same [OF that] by (simp add: action_filter_def)
  from array_filter_rel [OF rel m]
  have one: "rel_sum (=) (list_all2 R) (array_filter (model_filter e1 performer) (abilities e1))
               (array_filter (model_filter e2 performer) (abilities e2))" .
  show ?thesis
  proof (cases "array_filter (model_filter e1 performer) (abilities e1)")
    case (Inl e)
    with one show ?thesis
      by (cases "array_filter (model_filter e2 performer) (abilities e2)")
         (simp_all add: filteredAbilities_def)
  next
    case xs: (Inr xs)
    with one obtain ys where ys: "array_filter (model_filter e2 performer) (abilities e2) = Inr ys"
      and xy: "list_all2 R xs ys"
      by (cases "array_filter (model_filter e2 performer) (abilities e2)") simp_all
    from array_filter_rel [OF xy t]
    have two: "rel_sum (=) (list_all2 R) (array_filter (target_filter e1 tgt) xs)
                 (array_filter (target_filter e2 tgt) ys)" .
    show ?thesis
    proof (cases "array_filter (target_filter e1 tgt) xs")
      case (Inl e)
      with two xs ys show ?thesis
        by (cases "array_filter (target_filter e2 tgt) ys") (simp_all add: filteredAbilities_def)
    next
      case us: (Inr us)
      with two obtain vs where vs: "array_filter (target_filter e2 tgt) ys = Inr vs"
        and uv: "list_all2 R us vs"
        by (cases "array_filter (target_filter e2 tgt) ys") simp_all
      from filter_rel [OF uv a] xs ys us vs show ?thesis
        by (simp add: filteredAbilities_def)
    qed
  qed
qed

lemma alike_refl: "alike rt x x"
  by (simp add: alike_def)

lemma check_alike:
  assumes "alike rt x y" and "created s = created s'"
  shows "fst (check rt performer tgt opts x s) = fst (check rt performer tgt opts y s')
         \<and> created (snd (check rt performer tgt opts x s))
           = created (snd (check rt performer tgt opts y s'))"
  using assms
  by (simp add: check_def alike_def options_or_empty_def empty_object_def)

lemma array_map_alike:
  assumes "list_all2 (alike rt) xs ys"
  shows "created s = created s' \<Longrightarrow>
         fst (array_map (check rt performer tgt opts) xs s)
           = fst (array_map (check rt performer tgt opts) ys s')"
  using assms
proof (induction arbitrary: s s' rule: list_all2_induct)
  case Nil
  show ?case by simp
next
  case (Cons x xs y ys)
  from check_alike [OF Cons.hyps(1) Cons.prems, of performer tgt opts]
  have pq: "fst (check rt performer tgt opts x s) = fst (check rt performer tgt opts y s')"
    and c: "created (snd (check rt performer tgt opts x s))
              = created (snd (check rt performer tgt opts y s'))"
    by simp_all
  from Cons.IH [OF c] pq show ?case
    by (simp only: array_map_fst_Cons)
qed

lemma can_alike:
  assumes rel: "list_all2 (alike rt) (abilities e1) (abilities e2)"
    and inst: "instanceOf e1 = instanceOf e2"
  shows "fst (can rt e1 performer act tgt opts s) = fst (can rt e2 performer act tgt opts s)"
proof -
  have same: "model x = model y \<and> action x = action y \<and> target x = target y"
    if "alike rt x y" for x y
    using that by (simp add: alike_def)
  from filteredAbilities_rel [OF rel same inst, of performer act tgt]
  have frel: "rel_sum (=) (list_all2 (alike rt)) (filteredAbilities e1 performer act tgt)
           (filteredAbilities e2 performer act tgt)"
    by simp
  show ?thesis
  proof (cases "filteredAbilities e1 performer act tgt")
    case (Inl e)
    with frel show ?thesis
      by (cases "filteredAbilities e2 performer act tgt") (simp_all add: can_cases)
  next
    case (Inr fa)
    with frel obtain fb where fb: "filteredAbilities e2 performer act tgt = Inr fb"
      and ab: "list_all2 (alike rt) fa fb"
      by (cases "filteredAbilities e2 performer act tgt") simp_all
    from array_map_alike [OF ab refl, of performer tgt opts s]
    have "promises rt performer tgt opts fa s = promises rt performer tgt opts fb s"
      by (simp add: promises_def)
    with Inr fb show ?thesis
      by (simp add: can_cases)
  qed
qed

lemma allow_instanceOf:
  "instanceOf (snd (allow rt m actions targets cnd eng)) = instanceOf eng"
proof -
  have inner: "instanceOf (fold (\<lambda>t. push (g t)) ts e) = instanceOf e" for g ts e
    by (induction ts arbitrary: e) (simp_all add: push_def)
  have outer: "instanceOf (fold (\<lambda>a. fold (\<lambda>t. push (g a t)) ts) as e) = instanceOf e"
    for g ts as e
    by (induction as arbitrary: e) (simp_all add: inner)
  show ?thesis
    by (simp add: allow_def Let_def forEach_fold outer)
qed

lemma allow_abilities:
  "fst (allow rt m actions targets cnd eng) = Inr () \<Longrightarrow>
     abilities (snd (allow rt m actions targets cnd eng))
       = abilities eng @
         concat (map (\<lambda>a. map (\<lambda>t. \<lparr>model = m, action = a, target = t,
                                     condition = (if isObject rt cnd then Closure cnd
                                                  else Given cnd)\<rparr>)
                           (arrify rt targets))
                     (arrify rt actions))"
  by (auto simp: allow_def Let_def forEach_fold fold_fold_push getConditionFn_def
           split: if_splits)

lemma concat_rel:
  assumes "\<And>a t. R (g a t) (h a t)"
  shows "list_all2 R (concat (map (\<lambda>a. map (g a) ts) as)) (concat (map (\<lambda>a. map (h a) ts) as))"
proof (induction as)
  case Nil
  show ?case by simp
next
  case (Cons a as)
  have "list_all2 R (map (g a) ts) (map (h a) ts)"
    by (simp add: list_all2_conv_all_nth assms)
  with Cons show ?case
    by (simp add: list_all2_appendI)
qed


lemma same_promise_refl: "same_promise rt x x"
  by (simp add: same_promise_def)

lemma can_same_promise:
  assumes rel: "list_all2 (same_promise rt) (abilities e1) (abilities e2)"
    and inst: "instanceOf e1 = instanceOf e2"
    and pure: "truthy opts \<or> blind rt"
  shows "fst (can rt e1 performer act tgt opts s) = fst (can rt e2 performer act tgt opts s)"
proof -
  let ?ob = "if truthy opts then opts else New 0"
  have same: "model x = model y \<and> action x = action y \<and> target x = target y"
    if "same_promise rt x y" for x y
    using that by (simp add: same_promise_def)
  from filteredAbilities_rel [OF rel same inst, of performer act tgt]
  have frel: "rel_sum (=) (list_all2 (same_promise rt)) (filteredAbilities e1 performer act tgt)
           (filteredAbilities e2 performer act tgt)"
    by simp
  show ?thesis
  proof (cases "filteredAbilities e1 performer act tgt")
    case (Inl e)
    with frel show ?thesis
      by (cases "filteredAbilities e2 performer act tgt") (simp_all add: can_cases)
  next
    case (Inr fa)
    with frel obtain fb where fb: "filteredAbilities e2 performer act tgt = Inr fb"
      and ab: "list_all2 (same_promise rt) fa fb"
      by (cases "filteredAbilities e2 performer act tgt") simp_all
    from ab have "map (settle rt performer tgt ?ob) fa = map (settle rt performer tgt ?ob) fb"
      by (induction rule: list_all2_induct) (simp_all add: same_promise_def)
    then have "promises rt performer tgt opts fa s = promises rt performer tgt opts fb s"
      by (simp only: promises_settle [OF pure, of performer tgt _ s 0])
    with Inr fb show ?thesis
      by (simp add: can_cases)
  qed
qed

lemma every_True: "(every f xs = Inr True) = (\<forall>x\<in>set xs. f x = Inr True)"
  by (induction xs) (auto split: sum.splits)

lemma key_equal_True:
  "(key_equal rt tgt obj key = Inr True)
     = (\<exists>x y. get rt tgt key = Inr x \<and> read rt obj key = Inr y \<and> strict_eq x y)"
  by (auto simp: key_equal_def split: sum.splits)

lemma allow_rel:
  assumes ok1: "fst (allow rt m actions targets c1 eng) = Inr ()"
    and ok2: "fst (allow rt m actions targets c2 eng) = Inr ()"
    and refl: "\<And>x. R x x"
    and new: "\<And>a t. R \<lparr>model = m, action = a, target = t,
                        condition = (if isObject rt c1 then Closure c1 else Given c1)\<rparr>
                      \<lparr>model = m, action = a, target = t,
                        condition = (if isObject rt c2 then Closure c2 else Given c2)\<rparr>"
  shows "list_all2 R (abilities (snd (allow rt m actions targets c1 eng)))
           (abilities (snd (allow rt m actions targets c2 eng)))"
proof -
  let ?g = "\<lambda>a t. \<lparr>model = m, action = a, target = t,
                      condition = (if isObject rt c1 then Closure c1 else Given c1)\<rparr>"
  let ?h = "\<lambda>a t. \<lparr>model = m, action = a, target = t,
                      condition = (if isObject rt c2 then Closure c2 else Given c2)\<rparr>"
  have old: "list_all2 R (abilities eng) (abilities eng)"
    by (simp add: list_all2_conv_all_nth refl)
  have "list_all2 R (concat (map (\<lambda>a. map (?g a) (arrify rt targets)) (arrify rt actions)))
          (concat (map (\<lambda>a. map (?h a) (arrify rt targets)) (arrify rt actions)))"
    by (rule concat_rel) (rule new)
  with old show ?thesis
    by (simp only: allow_abilities [OF ok1] allow_abilities [OF ok2] list_all2_appendI)
qed

text \<open>
  C4. Let \<open>obj\<close> be a plain object and \<open>f\<close> a function that ignores the performer and the
  options and gives what \<^verbatim>\<open>isPartiallyEqual(target, obj)\<close> gives. Then the registry
  after \<^verbatim>\<open>allow(model, actions, targets, obj)\<close> answers every query as the registry
  after \<^verbatim>\<open>allow(model, actions, targets, f)\<close> does. \<^verbatim>\<open>isPartiallyEqual\<close> returns
  true if and only if, for every key of \<open>obj\<close>, the attribute of the target and the value
  of \<open>obj\<close> are read without an exception and are strictly equal; the attribute is read
  by calling the target's \<^verbatim>\<open>get\<close> with the key when the property \<^verbatim>\<open>get\<close> of the
  target is a function, and as the property of that name otherwise.
\<close>

theorem attribute_map_condition:
  assumes plain: "isObject rt obj"
    and described: "\<forall>performer tgt ob. call_condition rt f [performer, tgt, ob]
        = (case isPartiallyEqual rt tgt obj of Inl e \<Rightarrow> Throws e | Inr b \<Rightarrow> Returns (Bool b))"
  shows "fst (can rt (snd (allow rt m actions targets obj eng)) performer act tgt opts s)
           = fst (can rt (snd (allow rt m actions targets (Fn f) eng)) performer act tgt opts s)
     \<and> (isPartiallyEqual rt tgt obj = Inr True)
         = (\<forall>key\<in>set (object_keys rt obj).
              \<exists>x y. get rt tgt key = Inr x \<and> read rt obj key = Inr y \<and> strict_eq x y)
     \<and> get rt tgt key
         = (case read rt tgt ''get'' of
              Inl e \<Rightarrow> Inl e
            | Inr g \<Rightarrow> (case g of Fn h \<Rightarrow> call_method rt h tgt [Str key]
                        | _ \<Rightarrow> read rt tgt key))"
proof -
  let ?e1 = "snd (allow rt m actions targets obj eng)"
  let ?e2 = "snd (allow rt m actions targets (Fn f) eng)"
  from plain have ok1: "fst (allow rt m actions targets obj eng) = Inr ()"
    by (simp add: allow_def Let_def)
  have ok2: "fst (allow rt m actions targets (Fn f) eng) = Inr ()"
    by (simp add: allow_def Let_def)
  have fn: "\<not> isObject rt (Fn f)"
    by (simp add: isObject_def)
  have new: "alike rt \<lparr>model = m, action = a, target = t,
                        condition = (if isObject rt obj then Closure obj else Given obj)\<rparr>
                      \<lparr>model = m, action = a, target = t,
                        condition = (if isObject rt (Fn f) then Closure (Fn f)
                                     else Given (Fn f))\<rparr>" for a t
    using plain fn described
    by (simp add: alike_def present_def call_def arg_def)
  from allow_rel [of rt m actions targets obj eng "Fn f" "alike rt", OF ok1 ok2 alike_refl new]
  have "list_all2 (alike rt) (abilities ?e1) (abilities ?e2)" .
  then have "fst (can rt ?e1 performer act tgt opts s) = fst (can rt ?e2 performer act tgt opts s)"
    by (rule can_alike) (simp add: allow_instanceOf)
  moreover have "(isPartiallyEqual rt tgt obj = Inr True)
         = (\<forall>key\<in>set (object_keys rt obj).
              \<exists>x y. get rt tgt key = Inr x \<and> read rt obj key = Inr y \<and> strict_eq x y)"
    by (simp add: isPartiallyEqual_def every_True key_equal_True)
  moreover have "get rt tgt key
         = (case read rt tgt ''get'' of
              Inl e \<Rightarrow> Inl e
            | Inr g \<Rightarrow> (case g of Fn h \<Rightarrow> call_method rt h tgt [Str key]
                        | _ \<Rightarrow> read rt tgt key))"
    by (simp add: get_def)
  ultimately show ?thesis
    by blast
qed

theorem attribute_map_condition_witness:
  "fst (can world (snd (allow world (Fn 1) (Str ''read'') (Fn 2) (Obj 30) engine))
          (Obj 10) (Str ''read'') (Obj 21) Undefined fresh_store) = Resolved True
   \<and> fst (can world (snd (allow world (Fn 1) (Str ''read'') (Fn 2) (Fn 202) engine))
          (Obj 10) (Str ''read'') (Obj 21) Undefined fresh_store) = Resolved True
   \<and> isPartiallyEqual world (Obj 21) (Obj 30) = Inr True
   \<and> isPartiallyEqual world (Obj 20) (Obj 30) = Inr False"
proof -
  have plain: "isObject world (Obj 30)"
    by code_simp
  have described: "\<forall>performer tgt ob. call_condition world 202 [performer, tgt, ob]
        = (case isPartiallyEqual world tgt (Obj 30) of
             Inl e \<Rightarrow> Throws e | Inr b \<Rightarrow> Returns (Bool b))"
    by (simp add: isPartiallyEqual_world) (simp add: world_def arg_def)
  have fn: "fst (can world (snd (allow world (Fn 1) (Str ''read'') (Fn 2) (Fn 202) engine))
          (Obj 10) (Str ''read'') (Obj 21) Undefined fresh_store) = Resolved True"
    by code_simp
  have eq: "isPartiallyEqual world (Obj 21) (Obj 30) = Inr True
            \<and> isPartiallyEqual world (Obj 20) (Obj 30) = Inr False"
    by code_simp
  from attribute_map_condition [OF plain described,
         of "Fn 1" "Str ''read''" "Fn 2" engine "Obj 10" "Str ''read''" "Obj 21" Undefined fresh_store]
       fn eq
  show ?thesis
    by simp
qed

text \<open>
  C10. A plain object without keys is accepted by \<^verbatim>\<open>allow\<close>. The callback of a rule
  that holds it gives a promise fulfilled with \<^verbatim>\<open>true\<close>, for every performer, target
  and options, as the callback of a rule without a condition does; and the registry after
  \<^verbatim>\<open>allow(model, actions, targets, obj)\<close> answers every query as the registry after
  \<^verbatim>\<open>allow(model, actions, targets)\<close> does (the conditions of the other rules being
  taken not to tell the empty objects of the engine apart when \<^verbatim>\<open>options\<close> counts as
  false).
\<close>

theorem empty_map_condition:
  assumes plain: "isObject rt obj" and empty: "object_keys rt obj = []"
  shows "fst (allow rt m actions targets obj eng) = Inr ()
     \<and> fst (check rt performer tgt opts (ab\<lparr>condition := Closure obj\<rparr>) s) = Fulfilled (Bool True)
     \<and> fst (check rt performer tgt opts (ab\<lparr>condition := Given Undefined\<rparr>) s)
         = Fulfilled (Bool True)
     \<and> (truthy opts \<or> blind rt \<longrightarrow>
          fst (can rt (snd (allow rt m actions targets obj eng)) performer act tgt opts s)
            = fst (can rt (snd (allow rt m actions targets Undefined eng))
                     performer act tgt opts s))"
proof -
  let ?e1 = "snd (allow rt m actions targets obj eng)"
  let ?e2 = "snd (allow rt m actions targets Undefined eng)"
  from plain have ok1: "fst (allow rt m actions targets obj eng) = Inr ()"
    by (simp add: allow_def Let_def)
  have ok2: "fst (allow rt m actions targets Undefined eng) = Inr ()"
    by (simp add: allow_def Let_def)
  have undef: "\<not> isObject rt Undefined"
    by (simp add: isObject_def)
  from empty have always: "call rt (Closure obj) [p, t, ob] = Returns (Bool True)" for p t ob
    by (simp add: call_def isPartiallyEqual_def)
  have with_map: "fst (check rt performer tgt opts (ab\<lparr>condition := Closure obj\<rparr>) s)
                    = Fulfilled (Bool True)"
    by (simp add: check_def present_def always options_or_empty_def empty_object_def)
  have without: "fst (check rt performer tgt opts (ab\<lparr>condition := Given Undefined\<rparr>) s)
                    = Fulfilled (Bool True)"
    by (simp add: check_def present_def)
  have new: "same_promise rt \<lparr>model = m, action = a, target = t,
                        condition = (if isObject rt obj then Closure obj else Given obj)\<rparr>
                      \<lparr>model = m, action = a, target = t,
                        condition = (if isObject rt Undefined then Closure Undefined
                                     else Given Undefined)\<rparr>" for a t
    using plain undef
    by (simp add: same_promise_def settle_def present_def always)
  from allow_rel [of rt m actions targets obj eng Undefined "same_promise rt",
                  OF ok1 ok2 same_promise_refl new]
  have rel: "list_all2 (same_promise rt) (abilities ?e1) (abilities ?e2)" .
  have "fst (can rt ?e1 performer act tgt opts s) = fst (can rt ?e2 performer act tgt opts s)"
    if "truthy opts \<or> blind rt"
    using rel _ that by (rule can_same_promise) (simp add: allow_instanceOf)
  with ok1 with_map without show ?thesis
    by blast
qed

theorem empty_map_condition_witness:
  "fst (allow world (Fn 1) (Str ''read'') (Fn 2) (Obj 31) engine) = Inr ()
   \<and> fst (can world (snd (allow world (Fn 1) (Str ''read'') (Fn 2) (Obj 31) engine))
          (Obj 10) (Str ''read'') (Obj 20) Undefined fresh_store) = Resolved True
   \<and> fst (can world (snd (allow world (Fn 1) (Str ''read'') (Fn 2) (Obj 31) engine))
          (Obj 10) (Str ''create'') (Obj 20) Undefined fresh_store) = Resolved False"
proof -
  have plain: "isObject world (Obj 31)"
    by code_simp
  have empty: "object_keys world (Obj 31) = []"
    by code_simp
  have pure: "truthy Undefined \<or> blind world"
    by (simp add: blind_world)
  have r: "fst (can world (snd (allow world (Fn 1) (Str ''read'') (Fn 2) Undefined engine))
          (Obj 10) (Str ''read'') (Obj 20) Undefined fresh_store) = Resolved True"
    by code_simp
  have c: "fst (can world (snd (allow world (Fn 1) (Str ''read'') (Fn 2) Undefined engine))
          (Obj 10) (Str ''create'') (Obj 20) Undefined fresh_store) = Resolved False"
    by code_simp
  from empty_map_condition [OF plain empty,
         of "Fn 1" "Str ''read''" "Fn 2" engine "Obj 10" "Obj 20" Undefined _ fresh_store "Str ''read''"]
       empty_map_condition [OF plain empty,
         of "Fn 1" "Str ''read''" "Fn 2" engine "Obj 10" "Obj 20" Undefined _ fresh_store "Str ''create''"]
       pure r c
  show ?thesis
    by simp
qed

end
